theory Spec2Isabelle
  imports Main "HOL-Library.Sublist"
begin

section \<open>Data model of \<open>src/index.js\<close>\<close>

text \<open>
  The program polls a Gmail mailbox, admits messages by their subject or by the thread they
  belong to, asks a language model about each admitted message and either replies with a
  clarification question or closes the thread. Its only state that outlives a cycle is the
  map \<open>ongoingThreads\<close>.

  Strings are \<open>string\<close>. A rejected promise or a thrown exception is the \<open>Inl\<close> of a sum.
\<close>

datatype error = ApiError string | TypeError string

text \<open>A raw Gmail message, as \<open>gmail.users.messages.get\<close> with \<open>format: "full"\<close> returns it.
  A field the code tests for presence before reading it is an \<open>option\<close>.\<close>

record header =
  h_name :: string
  h_value :: string

record mbody =
  data :: "string option"
  attachmentId :: "string option"

record part =
  part_mimeType :: string
  part_filename :: string
  part_body :: "mbody option"

record payload =
  payload_headers :: "header list"
  payload_parts :: "part list option"
  payload_body :: "mbody option"

record message =
  msg_id :: string
  msg_threadId :: string
  msg_payload :: payload

text \<open>The object that \<open>extractEmail\<close> returns.\<close>

record attachment =
  att_filename :: string
  att_mimeType :: string
  att_data :: string

record email =
  email_id :: string
  email_threadId :: string
  email_headers :: "string \<rightharpoonup> string"
  email_body :: string
  email_attachments :: "attachment list"

text \<open>\<open>ongoingThreads\<close>: a \<open>Map\<close> from threadId to \<open>{ lastProcessedEmailId }\<close>.\<close>

record thread_record =
  lastProcessedEmailId :: string

type_synonym store = "string \<rightharpoonup> thread_record"

subsection \<open>The outside world\<close>

text \<open>
  Every call of the Gmail client, of the chat model and of \<open>Buffer\<close> is a call of a
  function of the environment. A call that rejects returns \<open>Inl\<close>. The answer of the
  environment depends on the request only; a world whose answers change is another
  environment. The argument \<open>userId: "me"\<close>, the same on every Gmail call, is left out.
\<close>

record list_request =
  q :: string
  maxResults :: nat

record send_request =
  send_raw :: string
  send_threadId :: string

record env =
  base64_decode :: "string \<Rightarrow> string"
  base64_encode :: "string \<Rightarrow> string"
  messages_list :: "list_request \<Rightarrow> error + string list option"
  messages_get :: "string \<Rightarrow> error + message"
  attachments_get :: "string \<Rightarrow> string \<Rightarrow> error + string"
  model_invoke :: "string \<Rightarrow> string \<Rightarrow> error + string"
  messages_send :: "send_request \<Rightarrow> error + unit"
  messages_modify :: "string \<Rightarrow> error + unit"

text \<open>
  The trace of a run: every call made to the mailbox or to the model, in the order of the
  calls, each with \<open>None\<close> when it succeeded and the error when it failed. Console output
  is not traced.
\<close>

datatype call =
    ListCall list_request
  | GetCall string
  | AttachmentCall string string
  | InvokeCall string string
  | SendCall send_request
  | ModifyCall string

type_synonym event = "call \<times> error option"

definition failure :: "error + 'a \<Rightarrow> error option" where
  "failure r = (case r of Inl e \<Rightarrow> Some e | Inr _ \<Rightarrow> None)"

section \<open>String helpers of the JavaScript runtime\<close>

text \<open>\<open>s.startsWith(p)\<close>.\<close>

fun startsWith :: "string \<Rightarrow> string \<Rightarrow> bool" where
  "startsWith s [] = True"
| "startsWith [] (p # ps) = False"
| "startsWith (c # cs) (p # ps) = (c = p \<and> startsWith cs ps)"

text \<open>\<open>s.toLowerCase()\<close> on the letters A to Z. The code compares the result with
  \<open>"message-id"\<close> only, and no other character lowers to a letter of that word.\<close>

definition lowerChar :: "char \<Rightarrow> char" where
  "lowerChar c =
     (case map_of (zip ''ABCDEFGHIJKLMNOPQRSTUVWXYZ'' ''abcdefghijklmnopqrstuvwxyz'') c of
        None \<Rightarrow> c
      | Some l \<Rightarrow> l)"

definition toLowerCase :: "string \<Rightarrow> string" where
  "toLowerCase s = map lowerChar s"

text \<open>\<open>lines.join(sep)\<close>.\<close>

fun join :: "string \<Rightarrow> string list \<Rightarrow> string" where
  "join sep [] = []"
| "join sep [x] = x"
| "join sep (x # y # ys) = x @ sep @ join sep (y # ys)"

text \<open>A template literal prints an absent value as \<open>undefined\<close> and \<open>null\<close> as \<open>null\<close>.\<close>

definition template :: "string \<Rightarrow> string option \<Rightarrow> string" where
  "template absent v = (case v of None \<Rightarrow> absent | Some s \<Rightarrow> s)"

text \<open>The three \<open>replace\<close> calls that make base64 URL-safe: every \<open>+\<close> becomes \<open>-\<close>,
  every \<open>/\<close> becomes \<open>_\<close>, and the \<open>=\<close> at the end are dropped.\<close>

definition replaceAll :: "char \<Rightarrow> char \<Rightarrow> string \<Rightarrow> string" where
  "replaceAll a b s = map (\<lambda>c. if c = a then b else c) s"

definition stripPadding :: "string \<Rightarrow> string" where
  "stripPadding s = rev (dropWhile (\<lambda>c. c = CHR ''='') (rev s))"

definition urlSafe :: "string \<Rightarrow> string" where
  "urlSafe s = stripPadding (replaceAll CHR ''/'' CHR ''_'' (replaceAll CHR ''+'' CHR ''-'' s))"

section \<open>\<open>extractEmail\<close>\<close>

text \<open>\<open>decodeBase64(x.data)\<close>: reading \<open>data\<close> of an absent body and decoding an absent
  \<open>data\<close> both throw a TypeError.\<close>

definition decodeBase64 :: "env \<Rightarrow> mbody option \<Rightarrow> error + string" where
  "decodeBase64 w b =
     (case b of
        None \<Rightarrow> Inl (TypeError ''body is undefined'')
      | Some b' \<Rightarrow>
          (case data b' of
             None \<Rightarrow> Inl (TypeError ''data is undefined'')
           | Some d \<Rightarrow> Inr (base64_decode w d)))"

text \<open>The first \<open>forEach\<close>: a later header of the same name overwrites an earlier one.\<close>

definition recognized :: "string list" where
  "recognized = [''From'', ''To'', ''Subject'', ''Date'']"

definition extractHeaders :: "header list \<Rightarrow> (string \<rightharpoonup> string)" where
  "extractHeaders hs =
     fold (\<lambda>h m. if h_name h \<in> set recognized then m(h_name h \<mapsto> h_value h) else m)
       hs Map.empty"

text \<open>The second \<open>forEach\<close>, over the parts: \<open>body += decodeBase64(part.body.data)\<close> for
  every text part.\<close>

fun appendParts :: "env \<Rightarrow> part list \<Rightarrow> string \<Rightarrow> error + string" where
  "appendParts w [] body = Inr body"
| "appendParts w (p # ps) body =
     (if part_mimeType p = ''text/plain'' \<or> part_mimeType p = ''text/html''
      then (case decodeBase64 w (part_body p) of
              Inl e \<Rightarrow> Inl e
            | Inr t \<Rightarrow> appendParts w ps (body @ t))
      else appendParts w ps body)"

definition extractBody :: "env \<Rightarrow> payload \<Rightarrow> error + string" where
  "extractBody w pl =
     (case payload_parts pl of
        Some ps \<Rightarrow> appendParts w ps []
      | None \<Rightarrow> decodeBase64 w (payload_body pl))"

text \<open>\<open>part.filename && part.body && part.body.attachmentId\<close>: the empty string is falsy.
  The result is the attachment id to fetch.\<close>

definition attachmentRef :: "part \<Rightarrow> string option" where
  "attachmentRef p =
     (if part_filename p = [] then None
      else (case part_body p of
              None \<Rightarrow> None
            | Some b \<Rightarrow>
                (case attachmentId b of
                   None \<Rightarrow> None
                 | Some a \<Rightarrow> if a = [] then None else Some a)))"

text \<open>The \<open>for\<close> loop over the parts: each fetch is awaited before the next part is looked
  at, and the first fetch that fails ends the loop with its error.\<close>

fun fetchAttachments ::
  "env \<Rightarrow> string \<Rightarrow> part list \<Rightarrow> (error + attachment list) \<times> event list" where
  "fetchAttachments w mid [] = (Inr [], [])"
| "fetchAttachments w mid (p # ps) =
     (case attachmentRef p of
        None \<Rightarrow> fetchAttachments w mid ps
      | Some a \<Rightarrow>
          (case attachments_get w mid a of
             Inl e \<Rightarrow> (Inl e, [(AttachmentCall mid a, Some e)])
           | Inr d \<Rightarrow>
               (case fetchAttachments w mid ps of
                  (Inl e, evs) \<Rightarrow> (Inl e, (AttachmentCall mid a, None) # evs)
                | (Inr atts, evs) \<Rightarrow>
                    (Inr (\<lparr>att_filename = part_filename p,
                            att_mimeType = part_mimeType p,
                            att_data = d\<rparr> # atts),
                     (AttachmentCall mid a, None) # evs))))"

definition extractEmail :: "env \<Rightarrow> message \<Rightarrow> (error + email) \<times> event list" where
  "extractEmail w message =
     (let pl = msg_payload message;
          hdrs = extractHeaders (payload_headers pl)
      in case extractBody w pl of
           Inl e \<Rightarrow> (Inl e, [])
         | Inr body \<Rightarrow>
             (case fetchAttachments w (msg_id message)
                     (case payload_parts pl of None \<Rightarrow> [] | Some ps \<Rightarrow> ps) of
                (Inl e, evs) \<Rightarrow> (Inl e, evs)
              | (Inr atts, evs) \<Rightarrow>
                  (Inr \<lparr>email_id = msg_id message,
                        email_threadId = msg_threadId message,
                        email_headers = hdrs,
                        email_body = body,
                        email_attachments = atts\<rparr>,
                   evs)))"

section \<open>\<open>analyzeEmailBody\<close> and \<open>sendEmailReply\<close>\<close>

definition systemPrompt :: string where
  "systemPrompt =
     ''You are an AI email assistant. '' @
     ''If the email is unclear and you need more information, respond with '' @
     [CHR 0x27] @ ''Clarify:'' @ [CHR 0x27] @
     '' as the first word, followed by your question. '' @
     ''If you understand the instructions, respond normally without the '' @
     [CHR 0x27] @ ''Clarify:'' @ [CHR 0x27] @ '' prefix.''"

definition humanPrompt :: "string \<Rightarrow> string" where
  "humanPrompt body =
     ''Analyze this email and extract instructions if possible.'' @
     [CHR 0x0A, CHR 0x0A] @ ''Email: '' @ body"

text \<open>One call of the model; the result is \<open>response.content\<close>.\<close>

definition analyzeEmailBody :: "env \<Rightarrow> string \<Rightarrow> (error + string) \<times> event list" where
  "analyzeEmailBody w body =
     (let r = model_invoke w systemPrompt (humanPrompt body)
      in (r, [(InvokeCall systemPrompt (humanPrompt body), failure r)]))"

text \<open>The lines of the reply before they are joined. \<open>to\<close> is \<open>email.headers.From\<close>, which
  is absent when the message has no From header; \<open>messageId\<close> is \<open>null\<close> when the message has
  no Message-ID header.\<close>

definition replyLines ::
  "string option \<Rightarrow> string \<Rightarrow> string \<Rightarrow> string option \<Rightarrow> string list" where
  "replyLines to subject body messageId =
     [''From: md@bursement.com'',
      ''To: '' @ template ''undefined'' to,
      ''Subject: Re: '' @ subject,
      ''In-Reply-To: '' @ template ''null'' messageId,
      ''References: '' @ template ''null'' messageId,
      [],
      body]"

definition rawMessage ::
  "string option \<Rightarrow> string \<Rightarrow> string \<Rightarrow> string option \<Rightarrow> string" where
  "rawMessage to subject body messageId =
     join [CHR 0x0A] (replyLines to subject body messageId)"

definition replyRequest ::
  "env \<Rightarrow> string option \<Rightarrow> string \<Rightarrow> string \<Rightarrow> string \<Rightarrow> string option \<Rightarrow> send_request" where
  "replyRequest w to subject body threadId messageId =
     \<lparr>send_raw = urlSafe (base64_encode w (rawMessage to subject body messageId)),
      send_threadId = threadId\<rparr>"

definition sendEmailReply ::
  "env \<Rightarrow> string option \<Rightarrow> string \<Rightarrow> string \<Rightarrow> string \<Rightarrow> string option \<Rightarrow>
     (error + unit) \<times> event list" where
  "sendEmailReply w to subject body threadId messageId =
     (let req = replyRequest w to subject body threadId messageId;
          r = messages_send w req
      in (r, [(SendCall req, failure r)]))"

section \<open>\<open>processEmail\<close>\<close>

text \<open>\<open>headers.find((h) => h.name.toLowerCase() === "message-id")\<close> on the raw headers.\<close>

definition findMessageId :: "header list \<Rightarrow> string option" where
  "findMessageId hs =
     map_option h_value (find (\<lambda>h. toLowerCase (h_name h) = ''message-id'') hs)"

text \<open>\<open>email.headers.Subject || ""\<close>.\<close>

definition subjectOf :: "email \<Rightarrow> string" where
  "subjectOf e = (case email_headers e ''Subject'' of None \<Rightarrow> [] | Some s \<Rightarrow> s)"

text \<open>\<open>gmail.users.messages.modify\<close> removing the label UNREAD.\<close>

definition markRead :: "env \<Rightarrow> string \<Rightarrow> (error + unit) \<times> event list" where
  "markRead w i =
     (let r = messages_modify w i in (r, [(ModifyCall i, failure r)]))"

text \<open>
  How a call of \<open>processEmail\<close> ends: its promise rejects (\<open>extractEmail\<close> is awaited outside
  the \<open>try\<close>), it returns at the subject test, it runs to the end, or its \<open>catch\<close> takes an
  error of the \<open>try\<close> block.
\<close>

datatype outcome = Rejected error | Skipped | Completed | Caught error

definition processEmail ::
  "env \<Rightarrow> message \<Rightarrow> store \<Rightarrow> outcome \<times> store \<times> event list" where
  "processEmail w message ongoingThreads =
     (case extractEmail w message of
        (Inl e, evs0) \<Rightarrow> (Rejected e, ongoingThreads, evs0)
      | (Inr email, evs0) \<Rightarrow>
          (let emailThreadId = email_threadId email;
               messageId = findMessageId (payload_headers (msg_payload message));
               sender = email_headers email ''From'';
               subject = subjectOf email
           in if \<not> startsWith subject ''Analysis:'' then (Skipped, ongoingThreads, evs0)
              else
                (case analyzeEmailBody w (email_body email) of
                   (Inl err, evs1) \<Rightarrow> (Caught err, ongoingThreads, evs0 @ evs1)
                 | (Inr aiResponse, evs1) \<Rightarrow>
                     if startsWith aiResponse ''Clarify:'' then
                       (case sendEmailReply w sender subject aiResponse emailThreadId messageId of
                          (Inl err, evs2) \<Rightarrow> (Caught err, ongoingThreads, evs0 @ evs1 @ evs2)
                        | (Inr _, evs2) \<Rightarrow>
                            (let st = ongoingThreads
                                   (emailThreadId \<mapsto> \<lparr>lastProcessedEmailId = email_id email\<rparr>)
                             in case markRead w (email_id email) of
                                  (Inl err, evs3) \<Rightarrow> (Caught err, st, evs0 @ evs1 @ evs2 @ evs3)
                                | (Inr _, evs3) \<Rightarrow> (Completed, st, evs0 @ evs1 @ evs2 @ evs3)))
                     else
                       (let st = ongoingThreads(emailThreadId := None)
                        in case markRead w (email_id email) of
                             (Inl err, evs3) \<Rightarrow> (Caught err, st, evs0 @ evs1 @ evs3)
                           | (Inr _, evs3) \<Rightarrow> (Completed, st, evs0 @ evs1 @ evs3)))))"

section \<open>\<open>pollEmails\<close>\<close>

definition listRequest :: list_request where
  "listRequest = \<lparr>q = ''to:md@bursement.com is:unread'', maxResults = 50\<rparr>"

text \<open>\<open>Promise.all\<close> over the fetches: \<open>map\<close> issues every \<open>get\<close>; the result is the list of
  messages when all of them succeed and an error when one fails (here the first failure in
  list order; which one the runtime reports does not matter below).\<close>

fun collect :: "(error + 'a) list \<Rightarrow> error + 'a list" where
  "collect [] = Inr []"
| "collect (Inl e # rs) = Inl e"
| "collect (Inr x # rs) = (case collect rs of Inl e \<Rightarrow> Inl e | Inr xs \<Rightarrow> Inr (x # xs))"

definition fetchAll :: "env \<Rightarrow> string list \<Rightarrow> (error + message list) \<times> event list" where
  "fetchAll w ids =
     (collect (map (messages_get w) ids),
      map (\<lambda>i. (GetCall i, failure (messages_get w i))) ids)"

text \<open>The subject as \<open>pollEmails\<close> reads it: the value of the first header named Subject.\<close>

definition pollSubject :: "message \<Rightarrow> string" where
  "pollSubject m =
     (case find (\<lambda>h. h_name h = ''Subject'') (payload_headers (msg_payload m)) of
        None \<Rightarrow> []
      | Some h \<Rightarrow> h_value h)"

definition eligible :: "store \<Rightarrow> message \<Rightarrow> bool" where
  "eligible ongoingThreads m =
     (startsWith (pollSubject m) ''Analysis:'' \<or> ongoingThreads (msg_threadId m) \<noteq> None)"

text \<open>
  The async callback given to \<open>fullMessages.map\<close>. \<open>map\<close> calls it for every message before
  any of the calls goes past its first \<open>await\<close>, and the map is written only after an
  \<open>await\<close>; so every admission test of a cycle reads the same map, \<open>seen\<close>, while the write
  of \<open>processEmail\<close> lands on the map as it is then. The result is \<open>None\<close> when the callback
  does not call \<open>processEmail\<close>.
\<close>

definition callback ::
  "env \<Rightarrow> store \<Rightarrow> message \<Rightarrow> store \<Rightarrow> outcome option \<times> store \<times> event list" where
  "callback w seen fullMessage ongoingThreads =
     (if eligible seen fullMessage
      then (case processEmail w fullMessage ongoingThreads of
              (r, st, evs) \<Rightarrow> (Some r, st, evs))
      else (None, ongoingThreads, []))"

text \<open>The second \<open>Promise.all\<close>. The calls run interleaved; \<open>processEmail\<close> never reads the
  map and writes it at most once, so a cycle is the same as running the calls one after
  the other in the order of their writes. The model takes list order.\<close>

fun processAll ::
  "env \<Rightarrow> store \<Rightarrow> message list \<Rightarrow> store \<Rightarrow>
     store \<times> (message \<times> outcome option \<times> event list) list" where
  "processAll w seen [] st = (st, [])"
| "processAll w seen (m # ms) st =
     (case callback w seen m st of
        (r, st', evs) \<Rightarrow>
          (case processAll w seen ms st' of
             (st'', rest) \<Rightarrow> (st'', (m, r, evs) # rest)))"

text \<open>A rejected \<open>processEmail\<close> rejects the second \<open>Promise.all\<close>, which the \<open>catch\<close> of
  \<open>pollEmails\<close> takes; the other calls are not cancelled.\<close>

fun firstRejected :: "(message \<times> outcome option \<times> event list) list \<Rightarrow> error option" where
  "firstRejected [] = None"
| "firstRejected ((m, Some (Rejected e), evs) # rest) = Some e"
| "firstRejected (x # rest) = firstRejected rest"

record cycle =
  cycle_store :: store
  cycle_calls :: "event list"
  cycle_emails :: "(message \<times> outcome option \<times> event list) list"
  cycle_caught :: "error option"

definition pollEmails :: "env \<Rightarrow> store \<Rightarrow> cycle" where
  "pollEmails w ongoingThreads =
     (case messages_list w listRequest of
        Inl err \<Rightarrow>
          \<lparr>cycle_store = ongoingThreads,
           cycle_calls = [(ListCall listRequest, Some err)],
           cycle_emails = [],
           cycle_caught = Some err\<rparr>
      | Inr response \<Rightarrow>
          (let messages = (case response of None \<Rightarrow> [] | Some ms \<Rightarrow> ms)
           in if messages = [] then
                \<lparr>cycle_store = ongoingThreads,
                 cycle_calls = [(ListCall listRequest, None)],
                 cycle_emails = [],
                 cycle_caught = None\<rparr>
              else
                (case fetchAll w messages of
                   (Inl err, evs) \<Rightarrow>
                     \<lparr>cycle_store = ongoingThreads,
                      cycle_calls = (ListCall listRequest, None) # evs,
                      cycle_emails = [],
                      cycle_caught = Some err\<rparr>
                 | (Inr fullMessages, evs) \<Rightarrow>
                     (case processAll w ongoingThreads fullMessages ongoingThreads of
                        (st, done) \<Rightarrow>
                          \<lparr>cycle_store = st,
                           cycle_calls = (ListCall listRequest, None) # evs,
                           cycle_emails = done,
                           cycle_caught = firstRejected done\<rparr>))))"

text \<open>
  The life of the map: it starts empty, and \<open>processEmail\<close> is the only code that writes
  it. A history is any sequence of \<open>processEmail\<close> calls, each with the behaviour of the
  outside world during that call, in the order of their writes. The log keeps, for each
  call, the environment, the message and the trace.
\<close>

fun processMany ::
  "(env \<times> message) list \<Rightarrow> store \<Rightarrow> store \<times> (env \<times> message \<times> event list) list" where
  "processMany [] st = (st, [])"
| "processMany ((w, m) # rest) st =
     (case processEmail w m st of
        (r, st', evs) \<Rightarrow>
          (case processMany rest st' of
             (st'', log) \<Rightarrow> (st'', (w, m, evs) # log)))"

section \<open>Notions used in the statements\<close>

text \<open>The subject as \<open>processEmail\<close> reads it, \<open>email.headers.Subject || ""\<close>, in terms of
  the raw message: the value of the last header named Subject, and empty without one.\<close>

definition messageSubject :: "message \<Rightarrow> string" where
  "messageSubject m =
     (case extractHeaders (payload_headers (msg_payload m)) ''Subject'' of
        None \<Rightarrow> []
      | Some s \<Rightarrow> s)"

text \<open>The request that the call of \<open>sendEmailReply\<close> in \<open>processEmail\<close> sends when the model
  answered \<open>answer\<close>, with the arguments of the call read off the raw message.\<close>

definition clarificationReply :: "env \<Rightarrow> message \<Rightarrow> string \<Rightarrow> send_request" where
  "clarificationReply w m answer =
     replyRequest w (extractHeaders (payload_headers (msg_payload m)) ''From'')
       (messageSubject m) answer (msg_threadId m)
       (findMessageId (payload_headers (msg_payload m)))"

text \<open>What the model answers for an extracted email, and the call that asks it.\<close>

definition classification :: "env \<Rightarrow> email \<Rightarrow> error + string" where
  "classification w e = model_invoke w systemPrompt (humanPrompt (email_body e))"

definition invokeCall :: "email \<Rightarrow> call" where
  "invokeCall e = InvokeCall systemPrompt (humanPrompt (email_body e))"

text \<open>Reading a trace: the replies sent, the listing calls, and the calls of the \<open>try\<close>
  block of \<open>processEmail\<close> (classification, reply, mark-read).\<close>

fun sendCalls :: "event list \<Rightarrow> (send_request \<times> error option) list" where
  "sendCalls [] = []"
| "sendCalls ((SendCall req, res) # evs) = (req, res) # sendCalls evs"
| "sendCalls (ev # evs) = sendCalls evs"

fun listCalls :: "event list \<Rightarrow> list_request list" where
  "listCalls [] = []"
| "listCalls ((ListCall req, res) # evs) = req # listCalls evs"
| "listCalls (ev # evs) = listCalls evs"

fun isAction :: "call \<Rightarrow> bool" where
  "isAction (InvokeCall s h) = True"
| "isAction (SendCall req) = True"
| "isAction (ModifyCall i) = True"
| "isAction c = False"

definition actions :: "event list \<Rightarrow> event list" where
  "actions evs = filter (\<lambda>ev. isAction (fst ev)) evs"

text \<open>Every call made during a cycle: those of \<open>pollEmails\<close> itself, then those of each
  callback.\<close>

definition cycleEvents :: "cycle \<Rightarrow> event list" where
  "cycleEvents c = cycle_calls c @ concat (map (\<lambda>x. snd (snd x)) (cycle_emails c))"

definition succeeded :: "error + unit \<Rightarrow> bool" where
  "succeeded r = (case r of Inl e \<Rightarrow> False | Inr u \<Rightarrow> True)"

section \<open>Example mailboxes\<close>

text \<open>A request for a refund, a reply to it that does not keep the prefix, a message with an
  attachment in the same thread, and a message that is not for the assistant.\<close>

definition msg_refund :: message where
  "msg_refund =
     \<lparr>msg_id = ''m1'', msg_threadId = ''t1'',
      msg_payload =
        \<lparr>payload_headers =
           [\<lparr>h_name = ''From'', h_value = ''alice@example.com''\<rparr>,
            \<lparr>h_name = ''Subject'', h_value = ''Analysis: refund request''\<rparr>,
            \<lparr>h_name = ''Message-ID'', h_value = ''<m1@example.com>''\<rparr>],
         payload_parts = None,
         payload_body = Some \<lparr>data = Some ''refund please'', attachmentId = None\<rparr>\<rparr>\<rparr>"

definition msg_followup :: message where
  "msg_followup =
     \<lparr>msg_id = ''m2'', msg_threadId = ''t1'',
      msg_payload =
        \<lparr>payload_headers =
           [\<lparr>h_name = ''From'', h_value = ''alice@example.com''\<rparr>,
            \<lparr>h_name = ''Subject'', h_value = ''Re: Analysis: refund request''\<rparr>],
         payload_parts = None,
         payload_body = Some \<lparr>data = Some ''order 42'', attachmentId = None\<rparr>\<rparr>\<rparr>"

definition part_pdf :: part where
  "part_pdf =
     \<lparr>part_mimeType = ''application/pdf'', part_filename = ''invoice.pdf'',
      part_body = Some \<lparr>data = None, attachmentId = Some ''a1''\<rparr>\<rparr>"

definition msg_invoice :: message where
  "msg_invoice =
     \<lparr>msg_id = ''m3'', msg_threadId = ''t1'',
      msg_payload =
        \<lparr>payload_headers =
           [\<lparr>h_name = ''From'', h_value = ''alice@example.com''\<rparr>,
            \<lparr>h_name = ''Subject'', h_value = ''Analysis: invoice''\<rparr>],
         payload_parts = Some
           [\<lparr>part_mimeType = ''text/plain'', part_filename = [],
             part_body = Some \<lparr>data = Some ''see attachment'', attachmentId = None\<rparr>\<rparr>,
            part_pdf],
         payload_body = None\<rparr>\<rparr>"

definition msg_hello :: message where
  "msg_hello =
     \<lparr>msg_id = ''m4'', msg_threadId = ''t4'',
      msg_payload =
        \<lparr>payload_headers =
           [\<lparr>h_name = ''From'', h_value = ''bob@example.com''\<rparr>,
            \<lparr>h_name = ''Subject'', h_value = ''Hello''\<rparr>],
         payload_parts = None,
         payload_body = Some \<lparr>data = Some ''hi'', attachmentId = None\<rparr>\<rparr>\<rparr>"

definition mailbox :: "string \<Rightarrow> error + message" where
  "mailbox i =
     (if i = ''m1'' then Inr msg_refund
      else if i = ''m2'' then Inr msg_followup
      else if i = ''m3'' then Inr msg_invoice
      else if i = ''m4'' then Inr msg_hello
      else Inl (ApiError ''not found''))"

text \<open>Environments. In all of them base64 is the identity, so that the examples show the
  text that is encoded. In the first, every call succeeds and the model asks back.\<close>

definition env_clarify :: env where
  "env_clarify =
     \<lparr>base64_decode = (\<lambda>s. s),
      base64_encode = (\<lambda>s. s),
      messages_list = (\<lambda>r. Inr (Some [''m1''])),
      messages_get = mailbox,
      attachments_get = (\<lambda>m a. Inr ''JVBERi0=''),
      model_invoke = (\<lambda>s h. Inr ''Clarify: which order number?''),
      messages_send = (\<lambda>r. Inr ()),
      messages_modify = (\<lambda>i. Inr ())\<rparr>"

definition env_understood :: env where
  "env_understood =
     env_clarify\<lparr>model_invoke := (\<lambda>s h. Inr ''Process the attached invoice'')\<rparr>"

definition env_send_fails :: env where
  "env_send_fails = env_clarify\<lparr>messages_send := (\<lambda>r. Inl (ApiError ''send failed''))\<rparr>"

definition env_modify_fails :: env where
  "env_modify_fails =
     env_clarify\<lparr>messages_modify := (\<lambda>i. Inl (ApiError ''modify failed''))\<rparr>"

definition env_no_attachment :: env where
  "env_no_attachment =
     env_understood\<lparr>attachments_get := (\<lambda>m a. Inl (ApiError ''attachment failed''))\<rparr>"

definition env_lost :: env where
  "env_lost = env_clarify\<lparr>messages_list := (\<lambda>r. Inr (Some [''m9'', ''m1'']))\<rparr>"

definition env_followup :: env where
  "env_followup = env_understood\<lparr>messages_list := (\<lambda>r. Inr (Some [''m2'']))\<rparr>"

definition env_hello :: env where
  "env_hello = env_clarify\<lparr>messages_list := (\<lambda>r. Inr (Some [''m4'']))\<rparr>"

definition store_tracked :: store where
  "store_tracked = [''t1'' \<mapsto> \<lparr>lastProcessedEmailId = ''m1''\<rparr>]"

text \<open>What \<open>extractEmail\<close> makes of two of the messages, and the reply to the first.\<close>

definition email_refund :: email where
  "email_refund =
     \<lparr>email_id = ''m1'', email_threadId = ''t1'',
      email_headers = extractHeaders (payload_headers (msg_payload msg_refund)),
      email_body = ''refund please'', email_attachments = []\<rparr>"

definition email_invoice :: email where
  "email_invoice =
     \<lparr>email_id = ''m3'', email_threadId = ''t1'',
      email_headers = extractHeaders (payload_headers (msg_payload msg_invoice)),
      email_body = ''see attachment'',
      email_attachments =
        [\<lparr>att_filename = ''invoice.pdf'', att_mimeType = ''application/pdf'',
          att_data = ''JVBERi0=''\<rparr>]\<rparr>"

definition reply_refund :: send_request where
  "reply_refund =
     \<lparr>send_raw = join [CHR 0x0A]
        [''From: md@bursement.com'',
         ''To: alice@example.com'',
         ''Subject: Re: Analysis: refund request'',
         ''In-Reply-To: <m1@example.com>'',
         ''References: <m1@example.com>'',
         [],
         ''Clarify: which order number?''],
      send_threadId = ''t1''\<rparr>"

section \<open>Facts about the helpers and about \<open>extractEmail\<close>\<close>

lemma startsWith_prefix: "startsWith s p = prefix p s"
  by (induction s p rule: startsWith.induct) auto

lemma extractHeaders_snoc:
  "extractHeaders (hs @ [h]) =
     (if h_name h \<in> set recognized then (extractHeaders hs)(h_name h \<mapsto> h_value h)
      else extractHeaders hs)"
  by (simp add: extractHeaders_def)

text \<open>The header object keeps, for each of the four names, the last header of that name.\<close>

lemma extractHeaders_last:
  "extractHeaders hs k =
     (if k \<in> set recognized then map_option h_value (find (\<lambda>h. h_name h = k) (rev hs))
      else None)"
  by (induction hs rule: rev_induct) (auto simp: extractHeaders_snoc, simp add: extractHeaders_def)

lemma extractEmail_fields:
  assumes "extractEmail w m = (Inr e, evs)"
  shows "email_id e = msg_id m" and "email_threadId e = msg_threadId m"
    and "email_headers e = extractHeaders (payload_headers (msg_payload m))"
  using assms
  by (auto simp: extractEmail_def Let_def split: sum.splits prod.splits)

lemma extractEmail_subject:
  "extractEmail w m = (Inr e, evs) \<Longrightarrow> subjectOf e = messageSubject m"
  by (simp add: subjectOf_def messageSubject_def extractEmail_fields)

lemma fetchAttachments_events:
  "(c, r) \<in> set (snd (fetchAttachments w mid ps)) \<Longrightarrow> \<exists>a. c = AttachmentCall mid a"
  by (induction ps arbitrary: c r) (auto split: option.splits sum.splits prod.splits)

lemma extractEmail_events:
  assumes "(c, r) \<in> set (snd (extractEmail w m))"
  shows "\<exists>a. c = AttachmentCall (msg_id m) a"
proof -
  obtain ps where "(c, r) \<in> set (snd (fetchAttachments w (msg_id m) ps))"
    using assms
    by (auto simp: extractEmail_def Let_def split: sum.splits prod.splits)
      (metis snd_conv)+
  then show ?thesis by (rule fetchAttachments_events)
qed

lemma fetchAttachments_fails:
  "p \<in> set ps \<Longrightarrow> attachmentRef p = Some a \<Longrightarrow> attachments_get w mid a = Inl e \<Longrightarrow>
     \<exists>err. fst (fetchAttachments w mid ps) = Inl err"
  by (induction ps) (auto split: option.splits sum.splits prod.splits)

lemma sendCalls_append: "sendCalls (xs @ ys) = sendCalls xs @ sendCalls ys"
  by (induction xs rule: sendCalls.induct) auto

lemma listCalls_append: "listCalls (xs @ ys) = listCalls xs @ listCalls ys"
  by (induction xs rule: listCalls.induct) auto

lemma attachment_events_quiet:
  "\<forall>ev \<in> set evs. \<exists>a. fst ev = AttachmentCall mid a \<Longrightarrow>
     sendCalls evs = [] \<and> listCalls evs = [] \<and> actions evs = []"
proof (induction evs)
  case Nil
  show ?case by (simp add: actions_def)
next
  case (Cons ev evs)
  obtain c r where ev: "ev = (c, r)" by (cases ev)
  from Cons.prems ev obtain a where c: "c = AttachmentCall mid a" by auto
  from Cons have "sendCalls evs = [] \<and> listCalls evs = [] \<and> actions evs = []" by simp
  with ev c show ?case by (simp add: actions_def)
qed

text \<open>\<open>extractEmail\<close> only fetches attachments.\<close>

lemma extractEmail_quiet:
  assumes "extractEmail w m = (x, evs0)"
  shows "sendCalls evs0 = []" and "listCalls evs0 = []" and "actions evs0 = []"
    and "(c, r) \<in> set evs0 \<Longrightarrow> \<not> isAction c"
proof -
  have *: "\<forall>ev \<in> set evs0. \<exists>a. fst ev = AttachmentCall (msg_id m) a"
    using extractEmail_events [of _ _ w m] assms by auto
  from attachment_events_quiet [OF *]
  show "sendCalls evs0 = []" and "listCalls evs0 = []" and "actions evs0 = []" by simp_all
  show "(c, r) \<in> set evs0 \<Longrightarrow> \<not> isAction c" using * by fastforce
qed

lemma clarificationReply_raw:
  "send_raw (clarificationReply w m answer) =
     urlSafe (base64_encode w (join [CHR 0x0A]
       [''From: md@bursement.com'',
        ''To: '' @ template ''undefined''
           (extractHeaders (payload_headers (msg_payload m)) ''From''),
        ''Subject: Re: '' @ messageSubject m,
        ''In-Reply-To: '' @
           template ''null'' (findMessageId (payload_headers (msg_payload m))),
        ''References: '' @
           template ''null'' (findMessageId (payload_headers (msg_payload m))),
        [],
        answer]))"
  by (simp add: clarificationReply_def replyRequest_def rawMessage_def replyLines_def)

lemma clarificationReply_thread:
  "send_threadId (clarificationReply w m answer) = msg_threadId m"
  by (simp add: clarificationReply_def replyRequest_def)

section \<open>The paths through \<open>processEmail\<close>\<close>

lemma processEmail_rejected:
  "extractEmail w m = (Inl e, evs0) \<Longrightarrow> processEmail w m st = (Rejected e, st, evs0)"
  by (simp add: processEmail_def)

lemma processEmail_skipped:
  "extractEmail w m = (Inr e, evs0) \<Longrightarrow> \<not> startsWith (messageSubject m) ''Analysis:'' \<Longrightarrow>
     processEmail w m st = (Skipped, st, evs0)"
  by (simp add: processEmail_def Let_def extractEmail_subject)

lemma processEmail_classify_fails:
  "extractEmail w m = (Inr e, evs0) \<Longrightarrow> startsWith (messageSubject m) ''Analysis:'' \<Longrightarrow>
   classification w e = Inl err \<Longrightarrow>
     processEmail w m st = (Caught err, st, evs0 @ [(invokeCall e, Some err)])"
  by (simp add: processEmail_def Let_def extractEmail_subject analyzeEmailBody_def
      classification_def invokeCall_def failure_def)

lemma processEmail_send_fails:
  "extractEmail w m = (Inr e, evs0) \<Longrightarrow> startsWith (messageSubject m) ''Analysis:'' \<Longrightarrow>
   classification w e = Inr answer \<Longrightarrow> startsWith answer ''Clarify:'' \<Longrightarrow>
   messages_send w (clarificationReply w m answer) = Inl err \<Longrightarrow>
     processEmail w m st =
       (Caught err, st,
        evs0 @ [(invokeCall e, None), (SendCall (clarificationReply w m answer), Some err)])"
  by (simp add: processEmail_def Let_def extractEmail_subject extractEmail_fields
      analyzeEmailBody_def sendEmailReply_def clarificationReply_def
      classification_def invokeCall_def failure_def)

lemma processEmail_clarified:
  "extractEmail w m = (Inr e, evs0) \<Longrightarrow> startsWith (messageSubject m) ''Analysis:'' \<Longrightarrow>
   classification w e = Inr answer \<Longrightarrow> startsWith answer ''Clarify:'' \<Longrightarrow>
   messages_send w (clarificationReply w m answer) = Inr u \<Longrightarrow>
     processEmail w m st =
       ((case messages_modify w (msg_id m) of Inl err \<Rightarrow> Caught err | Inr _ \<Rightarrow> Completed),
        st(msg_threadId m \<mapsto> \<lparr>lastProcessedEmailId = msg_id m\<rparr>),
        evs0 @ [(invokeCall e, None), (SendCall (clarificationReply w m answer), None),
                (ModifyCall (msg_id m), failure (messages_modify w (msg_id m)))])"
  by (simp add: processEmail_def Let_def extractEmail_subject extractEmail_fields
      analyzeEmailBody_def sendEmailReply_def clarificationReply_def markRead_def
      classification_def invokeCall_def failure_def split: sum.splits)

lemma processEmail_understood:
  "extractEmail w m = (Inr e, evs0) \<Longrightarrow> startsWith (messageSubject m) ''Analysis:'' \<Longrightarrow>
   classification w e = Inr answer \<Longrightarrow> \<not> startsWith answer ''Clarify:'' \<Longrightarrow>
     processEmail w m st =
       ((case messages_modify w (msg_id m) of Inl err \<Rightarrow> Caught err | Inr _ \<Rightarrow> Completed),
        st(msg_threadId m := None),
        evs0 @ [(invokeCall e, None),
                (ModifyCall (msg_id m), failure (messages_modify w (msg_id m)))])"
  by (simp add: processEmail_def Let_def extractEmail_subject extractEmail_fields
      analyzeEmailBody_def markRead_def
      classification_def invokeCall_def failure_def split: sum.splits)

text \<open>Every call of \<open>processEmail\<close> takes one of six paths.\<close>

lemma processEmail_cases:
  obtains
    (rejected) e evs0 where "extractEmail w m = (Inl e, evs0)"
  | (skipped) e evs0 where "extractEmail w m = (Inr e, evs0)"
      "\<not> startsWith (messageSubject m) ''Analysis:''"
  | (classify_fails) e evs0 err where "extractEmail w m = (Inr e, evs0)"
      "startsWith (messageSubject m) ''Analysis:''" "classification w e = Inl err"
  | (send_fails) e evs0 answer err where "extractEmail w m = (Inr e, evs0)"
      "startsWith (messageSubject m) ''Analysis:''" "classification w e = Inr answer"
      "startsWith answer ''Clarify:''" "messages_send w (clarificationReply w m answer) = Inl err"
  | (clarified) e evs0 answer where "extractEmail w m = (Inr e, evs0)"
      "startsWith (messageSubject m) ''Analysis:''" "classification w e = Inr answer"
      "startsWith answer ''Clarify:''" "messages_send w (clarificationReply w m answer) = Inr ()"
  | (understood) e evs0 answer where "extractEmail w m = (Inr e, evs0)"
      "startsWith (messageSubject m) ''Analysis:''" "classification w e = Inr answer"
      "\<not> startsWith answer ''Clarify:''"
proof (cases "extractEmail w m")
  case (Pair x evs0)
  show ?thesis
  proof (cases x)
    case (Inl e)
    with Pair rejected show ?thesis by simp
  next
    case (Inr e)
    note ex = Pair [unfolded Inr]
    show ?thesis
    proof (cases "startsWith (messageSubject m) ''Analysis:''")
      case False
      with ex skipped show ?thesis by simp
    next
      case sub: True
      show ?thesis
      proof (cases "classification w e")
        case (Inl err)
        with ex sub classify_fails show ?thesis by simp
      next
        case cl: (Inr answer)
        show ?thesis
        proof (cases "startsWith answer ''Clarify:''")
          case False
          with ex sub cl understood show ?thesis by simp
        next
          case mk: True
          show ?thesis
          proof (cases "messages_send w (clarificationReply w m answer)")
            case (Inl err)
            with ex sub cl mk send_fails show ?thesis by simp
          next
            case (Inr u)
            with ex sub cl mk clarified show ?thesis by simp
          qed
        qed
      qed
    qed
  qed
qed

section \<open>Facts about the traces and the store\<close>

lemma processEmail_sends:
  assumes "processEmail w m st = (r, st', evs)"
    and "(SendCall req, res) \<in> set evs"
  shows "\<exists>answer. req = clarificationReply w m answer"
proof (cases w m rule: processEmail_cases)
  case (rejected e evs0)
  with assms processEmail_rejected [OF rejected, of st] extractEmail_quiet(4) [OF rejected]
  show ?thesis by fastforce
next
  case (skipped e evs0)
  with assms processEmail_skipped [OF skipped, of st] extractEmail_quiet(4) [OF skipped(1)]
  show ?thesis by fastforce
next
  case (classify_fails e evs0 err)
  with assms processEmail_classify_fails [OF classify_fails, of st]
    extractEmail_quiet(4) [OF classify_fails(1)]
  show ?thesis by (fastforce simp: invokeCall_def)
next
  case (send_fails e evs0 answer err)
  with assms processEmail_send_fails [OF send_fails, of st]
    extractEmail_quiet(4) [OF send_fails(1)]
  show ?thesis by (fastforce simp: invokeCall_def)
next
  case (clarified e evs0 answer)
  with assms processEmail_clarified [OF clarified, of st]
    extractEmail_quiet(4) [OF clarified(1)]
  show ?thesis by (fastforce simp: invokeCall_def)
next
  case (understood e evs0 answer)
  with assms processEmail_understood [OF understood, of st]
    extractEmail_quiet(4) [OF understood(1)]
  show ?thesis by (fastforce simp: invokeCall_def)
qed

lemma processEmail_listCalls:
  assumes "processEmail w m st = (r, st', evs)"
  shows "listCalls evs = []"
proof (cases w m rule: processEmail_cases)
  case (rejected e evs0)
  with assms processEmail_rejected [OF rejected, of st] extractEmail_quiet(2) [OF rejected]
  show ?thesis by auto
next
  case (skipped e evs0)
  with assms processEmail_skipped [OF skipped, of st] extractEmail_quiet(2) [OF skipped(1)]
  show ?thesis by auto
next
  case (classify_fails e evs0 err)
  with assms processEmail_classify_fails [OF classify_fails, of st]
    extractEmail_quiet(2) [OF classify_fails(1)]
  show ?thesis by (auto simp: invokeCall_def listCalls_append)
next
  case (send_fails e evs0 answer err)
  with assms processEmail_send_fails [OF send_fails, of st]
    extractEmail_quiet(2) [OF send_fails(1)]
  show ?thesis by (auto simp: invokeCall_def listCalls_append)
next
  case (clarified e evs0 answer)
  with assms processEmail_clarified [OF clarified, of st]
    extractEmail_quiet(2) [OF clarified(1)]
  show ?thesis by (auto simp: invokeCall_def listCalls_append)
next
  case (understood e evs0 answer)
  with assms processEmail_understood [OF understood, of st]
    extractEmail_quiet(2) [OF understood(1)]
  show ?thesis by (auto simp: invokeCall_def listCalls_append)
qed

lemma callback_listCalls: "callback w seen m st = (r, st', evs) \<Longrightarrow> listCalls evs = []"
  by (auto simp: callback_def split: if_splits prod.splits dest: processEmail_listCalls)

lemma processAll_listCalls:
  "processAll w seen ms st = (st', done) \<Longrightarrow>
     listCalls (concat (map (\<lambda>x. snd (snd x)) done)) = []"
proof (induction ms arbitrary: st st' "done")
  case Nil
  then show ?case by simp
next
  case (Cons m ms)
  obtain r st1 evs where cb: "callback w seen m st = (r, st1, evs)"
    by (cases "callback w seen m st") auto
  obtain st2 rest where pa: "processAll w seen ms st1 = (st2, rest)"
    by (cases "processAll w seen ms st1") auto
  from Cons.prems cb pa have "done = (m, r, evs) # rest" by simp
  with Cons.IH [OF pa] callback_listCalls [OF cb] show ?case
    by (simp add: listCalls_append)
qed

lemma listCalls_gets: "listCalls (map (\<lambda>i. (GetCall i, f i)) ids) = []"
  by (induction ids) auto

lemma collect_fails: "Inl e \<in> set rs \<Longrightarrow> \<exists>err. collect rs = Inl err"
  by (induction rs rule: collect.induct) (auto split: sum.splits)

lemma callback_ineligible:
  "\<not> startsWith (pollSubject m) ''Analysis:'' \<Longrightarrow> seen (msg_threadId m) = None \<Longrightarrow>
     callback w seen m st = (None, st, [])"
  by (simp add: callback_def eligible_def)

lemma processEmail_wrong_subject:
  assumes "\<not> startsWith (messageSubject m) ''Analysis:''"
  shows "\<exists>r evs. processEmail w m st = (r, st, evs) \<and> actions evs = []"
proof (cases "extractEmail w m")
  case (Pair x evs0)
  show ?thesis
  proof (cases x)
    case (Inl e)
    with Pair processEmail_rejected [of w m e evs0 st] extractEmail_quiet(3) [OF Pair]
    show ?thesis by simp
  next
    case (Inr e)
    with Pair assms processEmail_skipped [of w m e evs0 st] extractEmail_quiet(3) [OF Pair]
    show ?thesis by simp
  qed
qed

lemma callback_quiet:
  assumes "\<not> (startsWith (pollSubject m) ''Analysis:'' \<and>
              startsWith (messageSubject m) ''Analysis:'')"
    and "seen (msg_threadId m) = None"
  shows "\<exists>r evs. callback w seen m st = (r, st, evs) \<and> actions evs = []"
proof (cases "startsWith (pollSubject m) ''Analysis:''")
  case False
  from callback_ineligible [of m seen w st] False assms(2) show ?thesis
    by (simp add: actions_def)
next
  case True
  with assms(1) have "\<not> startsWith (messageSubject m) ''Analysis:''" by simp
  from processEmail_wrong_subject [OF this, of w st] True show ?thesis
    by (auto simp: callback_def eligible_def)
qed

lemma processAll_entries:
  "processAll w seen ms st = (st', done) \<Longrightarrow> (m, r, evs) \<in> set done \<Longrightarrow>
     \<exists>st0 st1. callback w seen m st0 = (r, st1, evs)"
proof (induction ms arbitrary: st st' "done")
  case Nil
  then show ?case by simp
next
  case (Cons m' ms)
  obtain r' st1 evs' where cb: "callback w seen m' st = (r', st1, evs')"
    by (cases "callback w seen m' st") auto
  obtain st2 rest where pa: "processAll w seen ms st1 = (st2, rest)"
    by (cases "processAll w seen ms st1") auto
  from Cons.prems(1) cb pa have "done = (m', r', evs') # rest" by simp
  with Cons.prems(2) consider "(m, r, evs) = (m', r', evs')" | "(m, r, evs) \<in> set rest" by auto
  then show ?case
  proof cases
    case 1
    with cb show ?thesis by blast
  next
    case 2
    from Cons.IH [OF pa 2] show ?thesis .
  qed
qed

lemma pollEmails_entries:
  assumes "(m, r, evs) \<in> set (cycle_emails (pollEmails w seen))"
  shows "\<exists>st0 st1. callback w seen m st0 = (r, st1, evs)"
proof -
  from assms obtain fullMessages st' "done"
    where "processAll w seen fullMessages seen = (st', done)" and "(m, r, evs) \<in> set done"
    by (auto simp: pollEmails_def Let_def split: sum.splits if_splits prod.splits)
  then show ?thesis by (rule processAll_entries)
qed

text \<open>\<open>processEmail\<close> never reads the map: how it ends and what it calls do not depend on
  the map, and its only effect on the map is at most one write at the key of the thread.
  So calls that run interleaved act on the map like the same calls run one after the other
  in the order of their writes.\<close>

lemma processEmail_store_independent:
  "fst (processEmail w m st) = fst (processEmail w m st2) \<and>
   snd (snd (processEmail w m st)) = snd (snd (processEmail w m st2)) \<and>
   (fst (snd (processEmail w m st)) = st \<and> fst (snd (processEmail w m st2)) = st2 \<or>
    fst (snd (processEmail w m st)) = st(msg_threadId m := None) \<and>
    fst (snd (processEmail w m st2)) = st2(msg_threadId m := None) \<or>
    fst (snd (processEmail w m st)) =
      st(msg_threadId m \<mapsto> \<lparr>lastProcessedEmailId = msg_id m\<rparr>) \<and>
    fst (snd (processEmail w m st2)) =
      st2(msg_threadId m \<mapsto> \<lparr>lastProcessedEmailId = msg_id m\<rparr>))"
proof (cases w m rule: processEmail_cases)
  case (rejected e evs0)
  from processEmail_rejected [OF rejected, of st] processEmail_rejected [OF rejected, of st2]
  show ?thesis by simp
next
  case (skipped e evs0)
  from processEmail_skipped [OF skipped, of st] processEmail_skipped [OF skipped, of st2]
  show ?thesis by simp
next
  case (classify_fails e evs0 err)
  from processEmail_classify_fails [OF classify_fails, of st]
    processEmail_classify_fails [OF classify_fails, of st2]
  show ?thesis by simp
next
  case (send_fails e evs0 answer err)
  from processEmail_send_fails [OF send_fails, of st]
    processEmail_send_fails [OF send_fails, of st2]
  show ?thesis by simp
next
  case (clarified e evs0 answer)
  from processEmail_clarified [OF clarified, of st]
    processEmail_clarified [OF clarified, of st2]
  show ?thesis by simp
next
  case (understood e evs0 answer)
  from processEmail_understood [OF understood, of st]
    processEmail_understood [OF understood, of st2]
  show ?thesis by simp
qed

lemma processEmail_failed_step:
  assumes "processEmail w m st = (r, st', evs)"
    and "(c, Some err) \<in> set evs"
    and "isAction c"
  shows "r = Caught err \<and>
         st' =
           (if c = ModifyCall (msg_id m)
            then (if sendCalls evs = [] then st(msg_threadId m := None)
                  else st(msg_threadId m \<mapsto> \<lparr>lastProcessedEmailId = msg_id m\<rparr>))
            else st)"
proof -
  have notin: "(c, Some err) \<notin> set evs0" if "extractEmail w m = (x, evs0)" for x evs0
    using extractEmail_quiet(4) [OF that] assms(3) by blast
  show ?thesis
  proof (cases w m rule: processEmail_cases)
    case (rejected e evs0)
    with assms processEmail_rejected [OF rejected, of st] notin [OF rejected]
    show ?thesis by auto
  next
    case (skipped e evs0)
    with assms processEmail_skipped [OF skipped, of st] notin [OF skipped(1)]
    show ?thesis by auto
  next
    case (classify_fails e evs0 err')
    with assms processEmail_classify_fails [OF classify_fails, of st]
      notin [OF classify_fails(1)]
    show ?thesis by (auto simp: invokeCall_def)
  next
    case (send_fails e evs0 answer err')
    with assms processEmail_send_fails [OF send_fails, of st] notin [OF send_fails(1)]
    show ?thesis by (auto simp: invokeCall_def)
  next
    case (clarified e evs0 answer)
    with assms processEmail_clarified [OF clarified, of st]
      notin [OF clarified(1)] extractEmail_quiet(1) [OF clarified(1)]
    show ?thesis
      by (auto simp: invokeCall_def failure_def sendCalls_append split: sum.splits)
  next
    case (understood e evs0 answer)
    with assms processEmail_understood [OF understood, of st]
      notin [OF understood(1)] extractEmail_quiet(1) [OF understood(1)]
    show ?thesis
      by (auto simp: invokeCall_def failure_def sendCalls_append split: sum.splits)
  qed
qed

lemma processEmail_inserts:
  assumes "processEmail w m st = (r, st', evs)"
    and "st' tid = Some rec"
    and "st tid \<noteq> Some rec"
  shows "tid = msg_threadId m \<and> lastProcessedEmailId rec = msg_id m \<and>
         (\<exists>e evs0 answer.
            extractEmail w m = (Inr e, evs0) \<and>
            startsWith (messageSubject m) ''Analysis:'' \<and>
            classification w e = Inr answer \<and>
            startsWith answer ''Clarify:'' \<and>
            (SendCall (clarificationReply w m answer), None) \<in> set evs)"
proof (cases w m rule: processEmail_cases)
  case (rejected e evs0)
  with assms processEmail_rejected [OF rejected, of st] show ?thesis by auto
next
  case (skipped e evs0)
  with assms processEmail_skipped [OF skipped, of st] show ?thesis by auto
next
  case (classify_fails e evs0 err')
  with assms processEmail_classify_fails [OF classify_fails, of st] show ?thesis by auto
next
  case (send_fails e evs0 answer err')
  with assms processEmail_send_fails [OF send_fails, of st] show ?thesis by auto
next
  case (clarified e evs0 answer)
  from assms processEmail_clarified [OF clarified, of st]
  have st': "st' = st(msg_threadId m \<mapsto> \<lparr>lastProcessedEmailId = msg_id m\<rparr>)"
    and evs: "(SendCall (clarificationReply w m answer), None) \<in> set evs"
    by auto
  from st' assms(2,3) have "tid = msg_threadId m \<and> lastProcessedEmailId rec = msg_id m"
    by (auto split: if_splits)
  with clarified evs show ?thesis by blast
next
  case (understood e evs0 answer)
  with assms processEmail_understood [OF understood, of st] show ?thesis
    by (auto split: if_splits)
qed

lemma processMany_tracked:
  "processMany steps st = (final, log) \<Longrightarrow> final tid = Some rec \<Longrightarrow>
     st tid = Some rec \<or>
     (\<exists>w m evs e evs0 answer.
        (w, m, evs) \<in> set log \<and> msg_threadId m = tid \<and>
        msg_id m = lastProcessedEmailId rec \<and>
        extractEmail w m = (Inr e, evs0) \<and>
        classification w e = Inr answer \<and>
        startsWith answer ''Clarify:'' \<and>
        (SendCall (clarificationReply w m answer), None) \<in> set evs)"
proof (induction steps arbitrary: st final log)
  case Nil
  then show ?case by simp
next
  case (Cons step steps)
  obtain w m where step: "step = (w, m)" by (cases step)
  obtain r st1 evs where pe: "processEmail w m st = (r, st1, evs)"
    by (cases "processEmail w m st") auto
  obtain st2 log' where pm: "processMany steps st1 = (st2, log')"
    by (cases "processMany steps st1") auto
  from Cons.prems(1) step pe pm have fin: "final = st2" and log: "log = (w, m, evs) # log'"
    by simp_all
  from Cons.IH [OF pm] Cons.prems(2) fin
  consider "st1 tid = Some rec"
    | "\<exists>w m evs e evs0 answer.
        (w, m, evs) \<in> set log' \<and> msg_threadId m = tid \<and>
        msg_id m = lastProcessedEmailId rec \<and>
        extractEmail w m = (Inr e, evs0) \<and>
        classification w e = Inr answer \<and>
        startsWith answer ''Clarify:'' \<and>
        (SendCall (clarificationReply w m answer), None) \<in> set evs"
    by blast
  then show ?case
  proof cases
    case 1
    show ?thesis
    proof (cases "st tid = Some rec")
      case True
      then show ?thesis by simp
    next
      case False
      from processEmail_inserts [OF pe 1 False] obtain e evs0 answer
        where "tid = msg_threadId m" "lastProcessedEmailId rec = msg_id m"
          "extractEmail w m = (Inr e, evs0)" "classification w e = Inr answer"
          "startsWith answer ''Clarify:''"
          "(SendCall (clarificationReply w m answer), None) \<in> set evs"
        by blast
      moreover have "(w, m, evs) \<in> set log" by (simp add: log)
      ultimately show ?thesis by metis
    qed
  next
    case 2
    then obtain w' m' evs' e evs0 answer
      where "(w', m', evs') \<in> set log'" "msg_threadId m' = tid"
        "msg_id m' = lastProcessedEmailId rec"
        "extractEmail w' m' = (Inr e, evs0)" "classification w' e = Inr answer"
        "startsWith answer ''Clarify:''"
        "(SendCall (clarificationReply w' m' answer), None) \<in> set evs'"
      by blast
    moreover then have "(w', m', evs') \<in> set log" by (simp add: log)
    ultimately show ?thesis by metis
  qed
qed

section \<open>The example mailboxes, evaluated\<close>

lemmas example_envs =
  env_clarify_def env_understood_def env_send_fails_def env_modify_fails_def
  env_no_attachment_def env_lost_def env_followup_def env_hello_def mailbox_def

lemmas extract_defs =
  extractEmail_def extractBody_def decodeBase64_def attachmentRef_def Let_def

lemma extract_refund:
  "base64_decode w = (\<lambda>s. s) \<Longrightarrow> extractEmail w msg_refund = (Inr email_refund, [])"
  by (simp add: extract_defs msg_refund_def email_refund_def)

lemma extract_followup:
  "\<exists>e. extractEmail w msg_followup = (Inr e, [])"
  by (simp add: extract_defs msg_followup_def)

lemma extract_hello:
  "\<exists>e. extractEmail w msg_hello = (Inr e, [])"
  by (simp add: extract_defs msg_hello_def)

lemma extract_invoice:
  "base64_decode w = (\<lambda>s. s) \<Longrightarrow> attachments_get w ''m3'' ''a1'' = Inr ''JVBERi0='' \<Longrightarrow>
     extractEmail w msg_invoice = (Inr email_invoice, [(AttachmentCall ''m3'' ''a1'', None)])"
  by (simp add: extract_defs msg_invoice_def part_pdf_def email_invoice_def)

lemma subject_refund:
  "messageSubject msg_refund = ''Analysis: refund request''"
  "pollSubject msg_refund = ''Analysis: refund request''"
  by (simp_all add: messageSubject_def pollSubject_def extractHeaders_def recognized_def
      msg_refund_def)

lemma subject_invoice: "messageSubject msg_invoice = ''Analysis: invoice''"
  by (simp add: messageSubject_def extractHeaders_def recognized_def msg_invoice_def)

lemma subject_followup:
  "messageSubject msg_followup = ''Re: Analysis: refund request''"
  "pollSubject msg_followup = ''Re: Analysis: refund request''"
  by (simp_all add: messageSubject_def pollSubject_def extractHeaders_def recognized_def
      msg_followup_def)

lemma subject_hello:
  "messageSubject msg_hello = ''Hello''"
  "pollSubject msg_hello = ''Hello''"
  by (simp_all add: messageSubject_def pollSubject_def extractHeaders_def recognized_def
      msg_hello_def)

lemma message_ids:
  "msg_id msg_refund = ''m1''" "msg_threadId msg_refund = ''t1''"
  "msg_id msg_followup = ''m2''" "msg_threadId msg_followup = ''t1''"
  "msg_id msg_invoice = ''m3''" "msg_threadId msg_invoice = ''t1''"
  "msg_id msg_hello = ''m4''" "msg_threadId msg_hello = ''t4''"
  by (simp_all add: msg_refund_def msg_followup_def msg_invoice_def msg_hello_def)

lemma refund_reply:
  "base64_encode w = (\<lambda>s. s) \<Longrightarrow>
   clarificationReply w msg_refund ''Clarify: which order number?'' = reply_refund"
  by (simp add: clarificationReply_def replyRequest_def rawMessage_def replyLines_def
      messageSubject_def reply_refund_def urlSafe_def stripPadding_def replaceAll_def
      template_def findMessageId_def toLowerCase_def lowerChar_def extractHeaders_def
      recognized_def msg_refund_def)

text \<open>The refund request under the four environments that differ in the send or the
  mark-read call.\<close>

lemma refund_clarified:
  assumes "base64_decode w = (\<lambda>s. s)" and "base64_encode w = (\<lambda>s. s)"
    and "model_invoke w = (\<lambda>s h. Inr ''Clarify: which order number?'')"
    and "messages_send w = (\<lambda>r. Inr ())"
  shows "processEmail w msg_refund st =
     ((case messages_modify w ''m1'' of Inl err \<Rightarrow> Caught err | Inr _ \<Rightarrow> Completed),
      st(''t1'' \<mapsto> \<lparr>lastProcessedEmailId = ''m1''\<rparr>),
      [(invokeCall email_refund, None), (SendCall reply_refund, None),
       (ModifyCall ''m1'', failure (messages_modify w ''m1''))])"
proof -
  have cl: "classification w email_refund = Inr ''Clarify: which order number?''"
    by (simp add: classification_def assms(3))
  have sd: "messages_send w (clarificationReply w msg_refund ''Clarify: which order number?'')
      = Inr ()"
    by (simp add: assms(4))
  from processEmail_clarified [OF extract_refund [OF assms(1)] _ cl _ sd, of st]
  show ?thesis by (simp add: subject_refund message_ids refund_reply [OF assms(2)])
qed

lemma refund_send_fails:
  "processEmail env_send_fails msg_refund st =
     (Caught (ApiError ''send failed''), st,
      [(invokeCall email_refund, None), (SendCall reply_refund, Some (ApiError ''send failed''))])"
proof -
  have ex: "extractEmail env_send_fails msg_refund = (Inr email_refund, [])"
    by (rule extract_refund) (simp add: example_envs)
  have cl: "classification env_send_fails email_refund = Inr ''Clarify: which order number?''"
    by (simp add: classification_def example_envs)
  have rq: "clarificationReply env_send_fails msg_refund ''Clarify: which order number?'' =
      reply_refund"
    by (rule refund_reply) (simp add: example_envs)
  have sf: "messages_send env_send_fails
      (clarificationReply env_send_fails msg_refund ''Clarify: which order number?'') =
      Inl (ApiError ''send failed'')"
    by (simp add: example_envs)
  from processEmail_send_fails [OF ex _ cl _ sf, of st] rq
  show ?thesis by (simp add: subject_refund)
qed

lemma refund_ok:
  "processEmail env_clarify msg_refund st =
     (Completed, st(''t1'' \<mapsto> \<lparr>lastProcessedEmailId = ''m1''\<rparr>),
      [(invokeCall email_refund, None), (SendCall reply_refund, None),
       (ModifyCall ''m1'', None)])"
  using refund_clarified [of env_clarify st]
  by (simp add: example_envs failure_def)

lemma refund_modify_fails:
  "processEmail env_modify_fails msg_refund st =
     (Caught (ApiError ''modify failed''), st(''t1'' \<mapsto> \<lparr>lastProcessedEmailId = ''m1''\<rparr>),
      [(invokeCall email_refund, None), (SendCall reply_refund, None),
       (ModifyCall ''m1'', Some (ApiError ''modify failed''))])"
  using refund_clarified [of env_modify_fails st]
  by (simp add: example_envs failure_def)

section \<open>The claims\<close>

subsection \<open>Extraction\<close>

text \<open>
  C9. For every raw message, if the fetch of one of its attachments fails, \<open>extractEmail\<close>
  returns no email at all: the extraction fails as a whole, and the error reaches the caller,
  \<open>processEmail\<close>, whose promise rejects without touching the map. The parts that carry an
  attachment are those with a filename and an attachment id.
\<close>

theorem attachment_failure_fails_extraction:
  assumes "payload_parts (msg_payload m) = Some ps"
    and "p \<in> set ps"
    and "attachmentRef p = Some a"
    and "attachments_get w (msg_id m) a = Inl e"
  shows "(\<exists>err. fst (extractEmail w m) = Inl err) \<and>
         (\<exists>err evs. processEmail w m st = (Rejected err, st, evs))"
proof -
  from fetchAttachments_fails [OF assms(2,3,4)]
  obtain err where "fst (fetchAttachments w (msg_id m) ps) = Inl err" ..
  then have "\<exists>err. fst (extractEmail w m) = Inl err"
    using assms(1)
    by (cases "fetchAttachments w (msg_id m) ps")
      (auto simp: extractEmail_def Let_def split: sum.splits)
  then obtain err' where failed: "fst (extractEmail w m) = Inl err'" ..
  then have "extractEmail w m = (Inl err', snd (extractEmail w m))"
    by (metis prod.collapse)
  from processEmail_rejected [OF this] failed
  show ?thesis by blast
qed

theorem attachment_failure_fails_extraction_witness:
  "payload_parts (msg_payload msg_invoice) \<noteq> None \<and>
   attachmentRef part_pdf = Some ''a1'' \<and>
   attachments_get env_no_attachment (msg_id msg_invoice) ''a1'' =
     Inl (ApiError ''attachment failed'') \<and>
   (\<exists>err. fst (extractEmail env_no_attachment msg_invoice) = Inl err) \<and>
   (\<exists>err evs. processEmail env_no_attachment msg_invoice store_tracked =
      (Rejected err, store_tracked, evs))"
proof -
  let ?ps = "[\<lparr>part_mimeType = ''text/plain'', part_filename = [],
               part_body = Some \<lparr>data = Some ''see attachment'', attachmentId = None\<rparr>\<rparr>,
              part_pdf]"
  have h1: "payload_parts (msg_payload msg_invoice) = Some ?ps"
    by (simp add: msg_invoice_def)
  have h2: "part_pdf \<in> set ?ps" by simp
  have h3: "attachmentRef part_pdf = Some ''a1''"
    by (simp add: attachmentRef_def part_pdf_def)
  have h4: "attachments_get env_no_attachment (msg_id msg_invoice) ''a1'' =
      Inl (ApiError ''attachment failed'')"
    by (simp add: example_envs)
  from attachment_failure_fails_extraction [OF h1 h2 h3 h4, of store_tracked] h1 h3 h4
  show ?thesis by simp
qed

subsection \<open>The two branches of \<open>processEmail\<close>\<close>

text \<open>
  C5. For every processed email (its content was extracted and its subject starts with
  \<open>Analysis:\<close>) whose classification text does not start with the marker \<open>Clarify:\<close>, any
  record of the email's thread is removed from the store and no reply is sent for it.
\<close>

theorem understood_removes_thread:
  assumes "extractEmail w m = (Inr e, evs0)"
    and "startsWith (messageSubject m) ''Analysis:''"
    and "classification w e = Inr answer"
    and "\<not> startsWith answer ''Clarify:''"
  shows "\<exists>r evs. processEmail w m st = (r, st(msg_threadId m := None), evs) \<and>
           sendCalls evs = []"
  using processEmail_understood [OF assms, of st] extractEmail_quiet(1) [OF assms(1)]
  by (simp add: sendCalls_append invokeCall_def)

theorem understood_removes_thread_witness:
  "extractEmail env_understood msg_invoice =
     (Inr email_invoice, [(AttachmentCall ''m3'' ''a1'', None)]) \<and>
   startsWith (messageSubject msg_invoice) ''Analysis:'' \<and>
   classification env_understood email_invoice = Inr ''Process the attached invoice'' \<and>
   \<not> startsWith ''Process the attached invoice'' ''Clarify:'' \<and>
   store_tracked ''t1'' = Some \<lparr>lastProcessedEmailId = ''m1''\<rparr> \<and>
   (\<exists>r evs. processEmail env_understood msg_invoice store_tracked =
      (r, store_tracked(''t1'' := None), evs) \<and> sendCalls evs = [])"
proof -
  have h1: "extractEmail env_understood msg_invoice =
      (Inr email_invoice, [(AttachmentCall ''m3'' ''a1'', None)])"
    by (rule extract_invoice) (simp_all add: example_envs)
  have h2: "startsWith (messageSubject msg_invoice) ''Analysis:''"
    by (simp add: subject_invoice)
  have h3: "classification env_understood email_invoice = Inr ''Process the attached invoice''"
    by (simp add: classification_def example_envs)
  have h4: "\<not> startsWith ''Process the attached invoice'' ''Clarify:''" by simp
  from understood_removes_thread [OF h1 h2 h3 h4, of store_tracked] h1 h2 h3 h4
  show ?thesis by (simp add: message_ids store_tracked_def)
qed

text \<open>
  C3, as claimed: for every processed email whose classification text starts with
  \<open>Clarify:\<close>, exactly one reply is sent back to the sender, and afterwards the store
  holds a record for the thread with the email's id. The code writes the record only after
  the send has succeeded: when the mailbox refuses the reply, no reply has been sent and
  the thread is not tracked.
\<close>

theorem clarification_without_reply_counterexample:
  "extractEmail env_send_fails msg_refund = (Inr email_refund, []) \<and>
   startsWith (messageSubject msg_refund) ''Analysis:'' \<and>
   classification env_send_fails email_refund = Inr ''Clarify: which order number?'' \<and>
   startsWith ''Clarify: which order number?'' ''Clarify:'' \<and>
   fst (processEmail env_send_fails msg_refund Map.empty) = Caught (ApiError ''send failed'') \<and>
   sendCalls (snd (snd (processEmail env_send_fails msg_refund Map.empty))) =
     [(reply_refund, Some (ApiError ''send failed''))] \<and>
   fst (snd (processEmail env_send_fails msg_refund Map.empty)) ''t1'' = None"
proof -
  have ex: "extractEmail env_send_fails msg_refund = (Inr email_refund, [])"
    by (rule extract_refund) (simp add: example_envs)
  have cl: "classification env_send_fails email_refund = Inr ''Clarify: which order number?''"
    by (simp add: classification_def example_envs)
  from ex cl show ?thesis
    by (simp add: refund_send_fails subject_refund invokeCall_def)
qed

text \<open>
  C3, amended: for every processed email whose classification text starts with \<open>Clarify:\<close>,
  exactly one reply is handed to the mailbox. It goes into the thread of the email, is
  addressed to the From header, has the whole classification text, marker included, as its
  body, and names the Message-ID of the email in In-Reply-To and References (\<open>null\<close> when
  the email has none). If the mailbox accepts it, the store afterwards holds a record for
  the thread whose \<open>lastProcessedEmailId\<close> is the id of the email; if not, the store is
  unchanged.
\<close>

theorem clarification_reply_then_tracked:
  assumes "extractEmail w m = (Inr e, evs0)"
    and "startsWith (messageSubject m) ''Analysis:''"
    and "classification w e = Inr answer"
    and "startsWith answer ''Clarify:''"
  shows "\<exists>r st' evs.
           processEmail w m st = (r, st', evs) \<and>
           sendCalls evs =
             [(clarificationReply w m answer,
               failure (messages_send w (clarificationReply w m answer)))] \<and>
           send_threadId (clarificationReply w m answer) = msg_threadId m \<and>
           send_raw (clarificationReply w m answer) =
             urlSafe (base64_encode w (join [CHR 0x0A]
               [''From: md@bursement.com'',
                ''To: '' @ template ''undefined''
                   (extractHeaders (payload_headers (msg_payload m)) ''From''),
                ''Subject: Re: '' @ messageSubject m,
                ''In-Reply-To: '' @
                   template ''null'' (findMessageId (payload_headers (msg_payload m))),
                ''References: '' @
                   template ''null'' (findMessageId (payload_headers (msg_payload m))),
                [],
                answer])) \<and>
           st' =
             (if succeeded (messages_send w (clarificationReply w m answer))
              then st(msg_threadId m \<mapsto> \<lparr>lastProcessedEmailId = msg_id m\<rparr>)
              else st)"
proof (cases "messages_send w (clarificationReply w m answer)")
  case (Inl err)
  have "sendCalls (evs0 @ [(invokeCall e, None),
          (SendCall (clarificationReply w m answer), Some err)]) =
        [(clarificationReply w m answer, Some err)]"
    using extractEmail_quiet(1) [OF assms(1)] by (simp add: sendCalls_append invokeCall_def)
  with processEmail_send_fails [OF assms Inl, of st] Inl
  show ?thesis
    using clarificationReply_raw [of w m answer] clarificationReply_thread [of w m answer]
    by (simp add: failure_def succeeded_def)
next
  case (Inr u)
  have "sendCalls (evs0 @ [(invokeCall e, None),
          (SendCall (clarificationReply w m answer), None),
          (ModifyCall (msg_id m), failure (messages_modify w (msg_id m)))]) =
        [(clarificationReply w m answer, None)]"
    using extractEmail_quiet(1) [OF assms(1)] by (simp add: sendCalls_append invokeCall_def)
  with processEmail_clarified [OF assms Inr, of st] Inr
  show ?thesis
    using clarificationReply_raw [of w m answer] clarificationReply_thread [of w m answer]
    by (simp add: failure_def succeeded_def)
qed

theorem clarification_reply_then_tracked_witness:
  "extractEmail env_clarify msg_refund = (Inr email_refund, []) \<and>
   startsWith (messageSubject msg_refund) ''Analysis:'' \<and>
   classification env_clarify email_refund = Inr ''Clarify: which order number?'' \<and>
   startsWith ''Clarify: which order number?'' ''Clarify:'' \<and>
   (\<exists>r st' evs.
      processEmail env_clarify msg_refund Map.empty = (r, st', evs) \<and>
      sendCalls evs = [(reply_refund, None)] \<and>
      st' = [''t1'' \<mapsto> \<lparr>lastProcessedEmailId = ''m1''\<rparr>])"
proof -
  have h1: "extractEmail env_clarify msg_refund = (Inr email_refund, [])"
    by (rule extract_refund) (simp add: example_envs)
  have h2: "startsWith (messageSubject msg_refund) ''Analysis:''"
    by (simp add: subject_refund)
  have h3: "classification env_clarify email_refund = Inr ''Clarify: which order number?''"
    by (simp add: classification_def example_envs)
  have h4: "startsWith ''Clarify: which order number?'' ''Clarify:''" by simp
  have rq: "clarificationReply env_clarify msg_refund ''Clarify: which order number?'' =
      reply_refund"
    by (rule refund_reply) (simp add: example_envs)
  have ok: "messages_send env_clarify reply_refund = Inr ()"
    by (simp add: example_envs)
  from clarification_reply_then_tracked [OF h1 h2 h3 h4, of Map.empty]
  obtain r st' evs where
    "processEmail env_clarify msg_refund Map.empty = (r, st', evs)"
    "sendCalls evs = [(reply_refund, None)]"
    "st' = [''t1'' \<mapsto> \<lparr>lastProcessedEmailId = ''m1''\<rparr>]"
    unfolding rq by (auto simp: ok failure_def succeeded_def message_ids)
  with h1 h2 h3 h4 show ?thesis by blast
qed

text \<open>
  C7. Every reply that \<open>processEmail\<close> sends has the subject line \<open>Re:\<close> followed by the
  subject of the original email, and its In-Reply-To and References lines carry the
  Message-ID of the original email when that header is there. The request holds the
  URL-safe base64 of these lines joined by newlines.
\<close>

theorem reply_subject_and_threading:
  assumes "processEmail w m st = (r, st', evs)"
    and "(SendCall req, res) \<in> set evs"
  shows "\<exists>to ref body.
           send_raw req =
             urlSafe (base64_encode w (join [CHR 0x0A]
               [''From: md@bursement.com'',
                ''To: '' @ to,
                ''Subject: Re: '' @ messageSubject m,
                ''In-Reply-To: '' @ ref,
                ''References: '' @ ref,
                [],
                body])) \<and>
           send_threadId req = msg_threadId m \<and>
           (\<forall>mid. findMessageId (payload_headers (msg_payload m)) = Some mid \<longrightarrow> ref = mid)"
proof -
  from processEmail_sends [OF assms] obtain answer
    where req: "req = clarificationReply w m answer" ..
  let ?to = "template ''undefined'' (extractHeaders (payload_headers (msg_payload m)) ''From'')"
  let ?ref = "template ''null'' (findMessageId (payload_headers (msg_payload m)))"
  have "send_raw req =
      urlSafe (base64_encode w (join [CHR 0x0A]
        [''From: md@bursement.com'', ''To: '' @ ?to, ''Subject: Re: '' @ messageSubject m,
         ''In-Reply-To: '' @ ?ref, ''References: '' @ ?ref, [], answer]))"
    unfolding req by (rule clarificationReply_raw)
  moreover have "send_threadId req = msg_threadId m"
    unfolding req by (rule clarificationReply_thread)
  moreover have "\<forall>mid. findMessageId (payload_headers (msg_payload m)) = Some mid \<longrightarrow> ?ref = mid"
    by (simp add: template_def)
  ultimately show ?thesis by blast
qed

theorem reply_subject_and_threading_witness:
  "(SendCall reply_refund, None) \<in> set (snd (snd (processEmail env_clarify msg_refund Map.empty))) \<and>
   messageSubject msg_refund = ''Analysis: refund request'' \<and>
   findMessageId (payload_headers (msg_payload msg_refund)) = Some ''<m1@example.com>'' \<and>
   (\<exists>to body.
      send_raw reply_refund =
        urlSafe (base64_encode env_clarify (join [CHR 0x0A]
          [''From: md@bursement.com'',
           ''To: '' @ to,
           ''Subject: Re: Analysis: refund request'',
           ''In-Reply-To: <m1@example.com>'',
           ''References: <m1@example.com>'',
           [],
           body])))"
proof -
  have h1: "processEmail env_clarify msg_refund Map.empty =
      (Completed, [''t1'' \<mapsto> \<lparr>lastProcessedEmailId = ''m1''\<rparr>],
       [(invokeCall email_refund, None), (SendCall reply_refund, None),
        (ModifyCall ''m1'', None)])"
    by (rule refund_ok)
  have h2: "(SendCall reply_refund, None) \<in>
      set [(invokeCall email_refund, None), (SendCall reply_refund, None),
           (ModifyCall ''m1'', None)]"
    by simp
  have mid: "findMessageId (payload_headers (msg_payload msg_refund)) = Some ''<m1@example.com>''"
    by (simp add: findMessageId_def toLowerCase_def lowerChar_def msg_refund_def)
  from reply_subject_and_threading [OF h1 h2] mid
  have "\<exists>to body.
      send_raw reply_refund =
        urlSafe (base64_encode env_clarify (join [CHR 0x0A]
          [''From: md@bursement.com'', ''To: '' @ to,
           ''Subject: Re: '' @ messageSubject msg_refund,
           ''In-Reply-To: '' @ ''<m1@example.com>'', ''References: '' @ ''<m1@example.com>'',
           [], body]))"
    by auto
  then show ?thesis using h1 mid by (simp add: subject_refund)
qed

subsection \<open>Errors inside \<open>processEmail\<close>\<close>

text \<open>
  C6, as claimed: when a step of the processing of an email fails (classification, reply or
  mark-read), the error is caught for that email and the store is as it was before. The
  mark-read call comes after the write of the store, and nothing undoes the write: when
  mark-read fails after a clarification, the thread has become tracked.
\<close>

theorem mark_read_failure_keeps_write_counterexample:
  "fst (processEmail env_modify_fails msg_refund Map.empty) = Caught (ApiError ''modify failed'') \<and>
   (ModifyCall ''m1'', Some (ApiError ''modify failed'')) \<in>
     set (snd (snd (processEmail env_modify_fails msg_refund Map.empty))) \<and>
   Map.empty ''t1'' = (None :: thread_record option) \<and>
   fst (snd (processEmail env_modify_fails msg_refund Map.empty)) ''t1'' =
     Some \<lparr>lastProcessedEmailId = ''m1''\<rparr>"
  by (simp add: refund_modify_fails)

text \<open>
  C6, amended: when a step of the processing of an email fails, the error is caught for
  that email. If the step is the classification or the reply, the store is as it was before.
  If it is the mark-read call, the store has the write of the branch that ran: the
  record of the thread after a clarification reply, no record of the thread otherwise.
\<close>

theorem failed_step_caught_per_email:
  assumes "processEmail w m st = (r, st', evs)"
    and "(c, Some err) \<in> set evs"
    and "isAction c"
  shows "r = Caught err \<and>
         st' =
           (if c = ModifyCall (msg_id m)
            then (if sendCalls evs = [] then st(msg_threadId m := None)
                  else st(msg_threadId m \<mapsto> \<lparr>lastProcessedEmailId = msg_id m\<rparr>))
            else st)"
  using assms by (rule processEmail_failed_step)

theorem failed_step_caught_per_email_witness:
  "(SendCall reply_refund, Some (ApiError ''send failed'')) \<in>
     set (snd (snd (processEmail env_send_fails msg_refund store_tracked))) \<and>
   isAction (SendCall reply_refund) \<and>
   fst (processEmail env_send_fails msg_refund store_tracked) = Caught (ApiError ''send failed'') \<and>
   fst (snd (processEmail env_send_fails msg_refund store_tracked)) = store_tracked"
proof -
  have h1: "processEmail env_send_fails msg_refund store_tracked =
      (Caught (ApiError ''send failed''), store_tracked,
       [(invokeCall email_refund, None),
        (SendCall reply_refund, Some (ApiError ''send failed''))])"
    by (rule refund_send_fails)
  have h2: "(SendCall reply_refund, Some (ApiError ''send failed'')) \<in>
      set [(invokeCall email_refund, None),
           (SendCall reply_refund, Some (ApiError ''send failed''))]"
    by simp
  have h3: "isAction (SendCall reply_refund)" by simp
  from failed_step_caught_per_email [OF h1 h2 h3] h1 h2 h3
  show ?thesis by simp
qed

subsection \<open>When a thread becomes tracked\<close>

text \<open>
  C10. A thread is put into the store only in the clarification branch and only after the
  reply has been sent: a call of \<open>processEmail\<close> that leaves a record which was not there
  before ran on an email of that thread with that id, got an answer starting with
  \<open>Clarify:\<close> and sent the reply with success. Consequently, in every history that starts
  from the empty map, each tracked thread has an email of that thread, the one named by
  \<open>lastProcessedEmailId\<close>, whose classification started with \<open>Clarify:\<close> and whose
  clarification reply was sent with success. And a reply that fails is caught and leaves
  the store as it was.
\<close>

theorem tracked_only_after_successful_reply:
  "(processEmail w m st = (r, st', evs) \<and> st' tid = Some rec \<and> st tid \<noteq> Some rec \<longrightarrow>
      tid = msg_threadId m \<and> lastProcessedEmailId rec = msg_id m \<and>
      (\<exists>e evs0 answer.
         extractEmail w m = (Inr e, evs0) \<and>
         startsWith (messageSubject m) ''Analysis:'' \<and>
         classification w e = Inr answer \<and>
         startsWith answer ''Clarify:'' \<and>
         (SendCall (clarificationReply w m answer), None) \<in> set evs)) \<and>
   (processMany steps Map.empty = (final, log) \<and> final tid' = Some rec' \<longrightarrow>
      (\<exists>w' m' evs' e evs0 answer.
         (w', m', evs') \<in> set log \<and> msg_threadId m' = tid' \<and>
         msg_id m' = lastProcessedEmailId rec' \<and>
         extractEmail w' m' = (Inr e, evs0) \<and>
         classification w' e = Inr answer \<and>
         startsWith answer ''Clarify:'' \<and>
         (SendCall (clarificationReply w' m' answer), None) \<in> set evs')) \<and>
   (processEmail w2 m2 st2 = (r2, st2', evs2) \<and> (SendCall req2, Some err) \<in> set evs2 \<longrightarrow>
      r2 = Caught err \<and> st2' = st2)"
proof -
  have inserted: "processEmail w m st = (r, st', evs) \<and> st' tid = Some rec \<and>
      st tid \<noteq> Some rec \<longrightarrow>
      tid = msg_threadId m \<and> lastProcessedEmailId rec = msg_id m \<and>
      (\<exists>e evs0 answer.
         extractEmail w m = (Inr e, evs0) \<and>
         startsWith (messageSubject m) ''Analysis:'' \<and>
         classification w e = Inr answer \<and>
         startsWith answer ''Clarify:'' \<and>
         (SendCall (clarificationReply w m answer), None) \<in> set evs)"
    using processEmail_inserts [of w m st r st' evs tid rec] by blast
  have tracked: "processMany steps Map.empty = (final, log) \<and> final tid' = Some rec' \<longrightarrow>
      (\<exists>w' m' evs' e evs0 answer.
         (w', m', evs') \<in> set log \<and> msg_threadId m' = tid' \<and>
         msg_id m' = lastProcessedEmailId rec' \<and>
         extractEmail w' m' = (Inr e, evs0) \<and>
         classification w' e = Inr answer \<and>
         startsWith answer ''Clarify:'' \<and>
         (SendCall (clarificationReply w' m' answer), None) \<in> set evs')"
    using processMany_tracked [of steps Map.empty final log tid' rec'] by simp
  have failed: "processEmail w2 m2 st2 = (r2, st2', evs2) \<and>
      (SendCall req2, Some err) \<in> set evs2 \<longrightarrow> r2 = Caught err \<and> st2' = st2"
    using processEmail_failed_step [of w2 m2 st2 r2 st2' evs2 "SendCall req2" err] by simp
  from inserted tracked failed show ?thesis by (intro conjI)
qed

theorem tracked_only_after_successful_reply_witness:
  "processEmail env_clarify msg_refund Map.empty =
     (Completed, [''t1'' \<mapsto> \<lparr>lastProcessedEmailId = ''m1''\<rparr>],
      [(invokeCall email_refund, None), (SendCall reply_refund, None),
       (ModifyCall ''m1'', None)]) \<and>
   Map.empty ''t1'' \<noteq> Some \<lparr>lastProcessedEmailId = ''m1''\<rparr> \<and>
   (\<exists>e evs0 answer.
      extractEmail env_clarify msg_refund = (Inr e, evs0) \<and>
      classification env_clarify e = Inr answer \<and>
      startsWith answer ''Clarify:'' \<and>
      clarificationReply env_clarify msg_refund answer = reply_refund) \<and>
   processMany [(env_clarify, msg_refund)] Map.empty =
     ([''t1'' \<mapsto> \<lparr>lastProcessedEmailId = ''m1''\<rparr>],
      [(env_clarify, msg_refund,
        [(invokeCall email_refund, None), (SendCall reply_refund, None),
         (ModifyCall ''m1'', None)])]) \<and>
   (\<exists>w' m' evs' answer.
      (w', m', evs') \<in> set (snd (processMany [(env_clarify, msg_refund)] Map.empty)) \<and>
      msg_threadId m' = ''t1'' \<and> msg_id m' = ''m1'' \<and>
      startsWith answer ''Clarify:'' \<and>
      (SendCall (clarificationReply w' m' answer), None) \<in> set evs') \<and>
   (SendCall reply_refund, Some (ApiError ''send failed'')) \<in>
     set (snd (snd (processEmail env_send_fails msg_refund store_tracked))) \<and>
   fst (snd (processEmail env_send_fails msg_refund store_tracked)) = store_tracked"
proof -
  let ?rec = "\<lparr>lastProcessedEmailId = ''m1''\<rparr>"
  let ?evs = "[(invokeCall email_refund, None), (SendCall reply_refund, None),
               (ModifyCall ''m1'', None)]"
  let ?bad = "[(invokeCall email_refund, None),
               (SendCall reply_refund, Some (ApiError ''send failed''))]"
  have p1: "processEmail env_clarify msg_refund Map.empty = (Completed, [''t1'' \<mapsto> ?rec], ?evs)"
    by (rule refund_ok)
  have p2: "processMany [(env_clarify, msg_refund)] Map.empty =
      ([''t1'' \<mapsto> ?rec], [(env_clarify, msg_refund, ?evs)])"
    by (simp add: refund_ok)
  have p3: "processEmail env_send_fails msg_refund store_tracked =
      (Caught (ApiError ''send failed''), store_tracked, ?bad)"
    by (rule refund_send_fails)
  have rq: "clarificationReply env_clarify msg_refund ''Clarify: which order number?'' =
      reply_refund"
    by (rule refund_reply) (simp add: example_envs)
  have rq_inj: "clarificationReply env_clarify msg_refund answer = reply_refund"
    if "(SendCall (clarificationReply env_clarify msg_refund answer), None) \<in> set ?evs"
    for answer
    using that by (simp add: invokeCall_def)
  note inst = tracked_only_after_successful_reply
    [where w = env_clarify and m = msg_refund and st = Map.empty and r = Completed
       and st' = "[''t1'' \<mapsto> ?rec]" and evs = ?evs and tid = "''t1''" and rec = ?rec
       and steps = "[(env_clarify, msg_refund)]" and final = "[''t1'' \<mapsto> ?rec]"
       and log = "[(env_clarify, msg_refund, ?evs)]" and tid' = "''t1''" and rec' = ?rec
       and ?w2.0 = env_send_fails and ?m2.0 = msg_refund and ?st2.0 = store_tracked
       and ?r2.0 = "Caught (ApiError ''send failed'')" and ?st2' = store_tracked
       and ?evs2.0 = ?bad and ?req2.0 = reply_refund and err = "ApiError ''send failed''"]
  from inst p1 have a: "\<exists>e evs0 answer.
      extractEmail env_clarify msg_refund = (Inr e, evs0) \<and>
      classification env_clarify e = Inr answer \<and>
      startsWith answer ''Clarify:'' \<and>
      clarificationReply env_clarify msg_refund answer = reply_refund"
    using rq_inj by fastforce
  from inst p2 have b: "\<exists>w' m' evs' answer.
      (w', m', evs') \<in> set (snd (processMany [(env_clarify, msg_refund)] Map.empty)) \<and>
      msg_threadId m' = ''t1'' \<and> msg_id m' = ''m1'' \<and>
      startsWith answer ''Clarify:'' \<and>
      (SendCall (clarificationReply w' m' answer), None) \<in> set evs'"
    unfolding p2 by (simp del: set_simps) metis
  from inst p3 have c: "fst (snd (processEmail env_send_fails msg_refund store_tracked)) =
      store_tracked"
    by simp
  have d: "(SendCall reply_refund, Some (ApiError ''send failed'')) \<in>
      set (snd (snd (processEmail env_send_fails msg_refund store_tracked)))"
    by (simp add: p3)
  have e: "Map.empty ''t1'' \<noteq> Some ?rec" by simp
  from p1 e a p2 b d c show ?thesis by (intro conjI)
qed

subsection \<open>Admission\<close>

lemma followup_skipped: "processEmail w msg_followup st = (Skipped, st, [])"
proof -
  from extract_followup obtain e where "extractEmail w msg_followup = (Inr e, [])" ..
  from processEmail_skipped [OF this, of st] show ?thesis by (simp add: subject_followup)
qed

lemma pollEmails_single:
  assumes "messages_list w listRequest = Inr (Some [i])"
    and "messages_get w i = Inr m"
    and "callback w st m st = (r, st', evs)"
  shows "pollEmails w st =
     \<lparr>cycle_store = st',
      cycle_calls = [(ListCall listRequest, None), (GetCall i, None)],
      cycle_emails = [(m, r, evs)],
      cycle_caught = firstRejected [(m, r, evs)]\<rparr>"
  using assms by (simp add: pollEmails_def fetchAll_def failure_def)

text \<open>
  C2, as claimed: for a follow-up email with any subject in a tracked thread, when the
  classifier returns text without the marker, the record of the thread is removed, no reply
  is sent and the email is marked read. \<open>pollEmails\<close> admits the email because its thread is
  tracked, but \<open>processEmail\<close> tests the subject again and returns when it does not start
  with \<open>Analysis:\<close>: a reply with the usual subject \<open>Re: Analysis: ...\<close> is never classified,
  the record stays and the email stays unread.
\<close>

theorem tracked_followup_other_subject_counterexample:
  "store_tracked (msg_threadId msg_followup) = Some \<lparr>lastProcessedEmailId = ''m1''\<rparr> \<and>
   eligible store_tracked msg_followup \<and>
   model_invoke env_followup systemPrompt (humanPrompt ''order 42'') =
     Inr ''Process the attached invoice'' \<and>
   \<not> startsWith ''Process the attached invoice'' ''Clarify:'' \<and>
   cycle_emails (pollEmails env_followup store_tracked) = [(msg_followup, Some Skipped, [])] \<and>
   cycle_calls (pollEmails env_followup store_tracked) =
     [(ListCall listRequest, None), (GetCall ''m2'', None)] \<and>
   cycle_store (pollEmails env_followup store_tracked) ''t1'' =
     Some \<lparr>lastProcessedEmailId = ''m1''\<rparr>"
proof -
  have el: "eligible store_tracked msg_followup"
    by (simp add: eligible_def message_ids store_tracked_def)
  then have cb: "callback env_followup store_tracked msg_followup store_tracked =
      (Some Skipped, store_tracked, [])"
    by (simp add: callback_def followup_skipped)
  have "pollEmails env_followup store_tracked =
     \<lparr>cycle_store = store_tracked,
      cycle_calls = [(ListCall listRequest, None), (GetCall ''m2'', None)],
      cycle_emails = [(msg_followup, Some Skipped, [])],
      cycle_caught = firstRejected [(msg_followup, Some Skipped, [])]\<rparr>"
    by (rule pollEmails_single [OF _ _ cb]) (simp_all add: example_envs)
  with el show ?thesis
    by (simp add: message_ids store_tracked_def example_envs)
qed

text \<open>
  C2, amended: for every follow-up email whose subject starts with \<open>Analysis:\<close>, arriving
  in a tracked thread, if its content is extracted and the classifier returns text without
  the marker, then the record of the thread is removed, no reply is sent, and the
  mark-read call for the email is made; the processing completes exactly when that call
  succeeds.
\<close>

theorem tracked_followup_understood:
  assumes "seen (msg_threadId m) = Some rec"
    and "extractEmail w m = (Inr e, evs0)"
    and "startsWith (messageSubject m) ''Analysis:''"
    and "classification w e = Inr answer"
    and "\<not> startsWith answer ''Clarify:''"
  shows "\<exists>r evs.
           callback w seen m st = (Some r, st(msg_threadId m := None), evs) \<and>
           sendCalls evs = [] \<and>
           (ModifyCall (msg_id m), failure (messages_modify w (msg_id m))) \<in> set evs \<and>
           (r = Completed) = succeeded (messages_modify w (msg_id m))"
proof -
  from assms(1) have "eligible seen m" by (simp add: eligible_def)
  moreover have "sendCalls (evs0 @ [(invokeCall e, None),
      (ModifyCall (msg_id m), failure (messages_modify w (msg_id m)))]) = []"
    using extractEmail_quiet(1) [OF assms(2)] by (simp add: sendCalls_append invokeCall_def)
  ultimately show ?thesis
    using processEmail_understood [OF assms(2-5), of st]
    by (simp add: callback_def succeeded_def split: sum.splits)
qed

theorem tracked_followup_understood_witness:
  "store_tracked (msg_threadId msg_invoice) = Some \<lparr>lastProcessedEmailId = ''m1''\<rparr> \<and>
   extractEmail env_understood msg_invoice =
     (Inr email_invoice, [(AttachmentCall ''m3'' ''a1'', None)]) \<and>
   startsWith (messageSubject msg_invoice) ''Analysis:'' \<and>
   classification env_understood email_invoice = Inr ''Process the attached invoice'' \<and>
   \<not> startsWith ''Process the attached invoice'' ''Clarify:'' \<and>
   (\<exists>evs. callback env_understood store_tracked msg_invoice store_tracked =
      (Some Completed, store_tracked(''t1'' := None), evs) \<and>
      sendCalls evs = [] \<and> (ModifyCall ''m3'', None) \<in> set evs)"
proof -
  have h0: "store_tracked (msg_threadId msg_invoice) = Some \<lparr>lastProcessedEmailId = ''m1''\<rparr>"
    by (simp add: message_ids store_tracked_def)
  have h1: "extractEmail env_understood msg_invoice =
      (Inr email_invoice, [(AttachmentCall ''m3'' ''a1'', None)])"
    by (rule extract_invoice) (simp_all add: example_envs)
  have h2: "startsWith (messageSubject msg_invoice) ''Analysis:''"
    by (simp add: subject_invoice)
  have h3: "classification env_understood email_invoice = Inr ''Process the attached invoice''"
    by (simp add: classification_def example_envs)
  have h4: "\<not> startsWith ''Process the attached invoice'' ''Clarify:''" by simp
  have ok: "messages_modify env_understood ''m3'' = Inr ()"
    by (simp add: example_envs)
  from tracked_followup_understood
    [of store_tracked msg_invoice, OF h0 h1 h2 h3 h4, of store_tracked]
  have "\<exists>evs. callback env_understood store_tracked msg_invoice store_tracked =
      (Some Completed, store_tracked(''t1'' := None), evs) \<and>
      sendCalls evs = [] \<and> (ModifyCall ''m3'', None) \<in> set evs"
    by (auto simp: message_ids ok failure_def succeeded_def)
  with h0 h1 h2 h3 h4 show ?thesis by (intro conjI)
qed

text \<open>
  C4. For every email whose subject does not start with \<open>Analysis:\<close> and whose thread is
  not in the store, the cycle does nothing for the email: the classifier is not called, no
  reply is sent, the email is not marked read, and the store is as it was. \<open>pollEmails\<close>
  reads the subject from the first Subject header and \<open>processEmail\<close> from the last; the
  statement holds when either of the two lacks the prefix, and with the first lacking it
  \<open>processEmail\<close> is not even called.
\<close>

theorem unadmitted_email_is_skipped:
  assumes "\<not> (startsWith (pollSubject m) ''Analysis:'' \<and>
              startsWith (messageSubject m) ''Analysis:'')"
    and "seen (msg_threadId m) = None"
  shows "(\<exists>r evs. callback w seen m st = (r, st, evs) \<and> actions evs = []) \<and>
         (\<not> startsWith (pollSubject m) ''Analysis:'' \<longrightarrow>
            callback w seen m st = (None, st, [])) \<and>
         (\<forall>r evs. (m, r, evs) \<in> set (cycle_emails (pollEmails w seen)) \<longrightarrow> actions evs = [])"
proof (intro conjI allI impI)
  show "\<exists>r evs. callback w seen m st = (r, st, evs) \<and> actions evs = []"
    using assms by (rule callback_quiet)
next
  assume "\<not> startsWith (pollSubject m) ''Analysis:''"
  then show "callback w seen m st = (None, st, [])"
    using assms(2) by (simp add: callback_ineligible)
next
  fix r evs
  assume "(m, r, evs) \<in> set (cycle_emails (pollEmails w seen))"
  from pollEmails_entries [OF this] obtain st0 st1
    where "callback w seen m st0 = (r, st1, evs)" by blast
  with callback_quiet [of m seen w st0] assms show "actions evs = []" by auto
qed

theorem unadmitted_email_is_skipped_witness:
  "\<not> startsWith (pollSubject msg_hello) ''Analysis:'' \<and>
   store_tracked (msg_threadId msg_hello) = None \<and>
   callback env_hello store_tracked msg_hello store_tracked = (None, store_tracked, []) \<and>
   cycle_emails (pollEmails env_hello store_tracked) = [(msg_hello, None, [])] \<and>
   cycle_store (pollEmails env_hello store_tracked) = store_tracked"
proof -
  have h1: "\<not> (startsWith (pollSubject msg_hello) ''Analysis:'' \<and>
      startsWith (messageSubject msg_hello) ''Analysis:'')"
    by (simp add: subject_hello)
  have h1': "\<not> startsWith (pollSubject msg_hello) ''Analysis:''"
    by (simp add: subject_hello)
  have h2: "store_tracked (msg_threadId msg_hello) = None"
    by (simp add: message_ids store_tracked_def)
  from unadmitted_email_is_skipped [of msg_hello store_tracked env_hello store_tracked, OF h1 h2] h1'
  have cb: "callback env_hello store_tracked msg_hello store_tracked = (None, store_tracked, [])"
    by blast
  have "pollEmails env_hello store_tracked =
     \<lparr>cycle_store = store_tracked,
      cycle_calls = [(ListCall listRequest, None), (GetCall ''m4'', None)],
      cycle_emails = [(msg_hello, None, [])],
      cycle_caught = firstRejected [(msg_hello, None, [])]\<rparr>"
    by (rule pollEmails_single [OF _ _ cb]) (simp_all add: example_envs)
  with h1' h2 cb show ?thesis by simp
qed

subsection \<open>The cycle\<close>

text \<open>
  C8. In every polling cycle the listing call asks for at most 50 unread messages: a cycle
  makes one listing call, with the fixed query and \<open>maxResults\<close> 50.
\<close>

theorem poll_lists_at_most_50:
  "listCalls (cycleEvents (pollEmails w st)) = [listRequest] \<and> maxResults listRequest = 50"
proof -
  have "listCalls (cycleEvents (pollEmails w st)) = [listRequest]"
  proof (cases "messages_list w listRequest")
    case (Inl err)
    then show ?thesis by (simp add: pollEmails_def cycleEvents_def)
  next
    case (Inr response)
    let ?ids = "case response of None \<Rightarrow> [] | Some ms \<Rightarrow> ms"
    show ?thesis
    proof (cases "?ids = []")
      case True
      with Inr show ?thesis by (simp add: pollEmails_def cycleEvents_def)
    next
      case False
      obtain x evs where fa: "fetchAll w ?ids = (x, evs)" by (cases "fetchAll w ?ids") auto
      then have evs: "listCalls evs = []" by (auto simp: fetchAll_def listCalls_gets)
      show ?thesis
      proof (cases x)
        case (Inl err)
        with Inr False fa evs show ?thesis by (simp add: pollEmails_def cycleEvents_def)
      next
        case full: (Inr fullMessages)
        obtain st' results where pa: "processAll w st fullMessages st = (st', results)"
          by (cases "processAll w st fullMessages st") auto
        from processAll_listCalls [OF pa] Inr False fa evs full pa show ?thesis
          by (simp add: pollEmails_def cycleEvents_def listCalls_append)
      qed
    qed
  qed
  then show ?thesis by (simp add: listRequest_def)
qed

theorem poll_lists_at_most_50_witness:
  "listCalls (cycleEvents (pollEmails env_clarify store_tracked)) =
     [\<lparr>q = ''to:md@bursement.com is:unread'', maxResults = 50\<rparr>]"
  using poll_lists_at_most_50 [of env_clarify store_tracked]
  by (simp add: listRequest_def)

text \<open>
  C1, as claimed: the failure of the fetch of one listed message does not keep the other
  listed messages of the cycle from being fetched and processed. The fetches are joined by
  one \<open>Promise.all\<close> inside the \<open>try\<close> of \<open>pollEmails\<close>: a listing of two messages, the first
  of which cannot be fetched, ends in the \<open>catch\<close>, and the second message, fetched with
  success and eligible, gets no classification and no reply. Listed alone, it gets both.
\<close>

theorem fetch_failure_stops_others_counterexample:
  "messages_list env_lost listRequest = Inr (Some [''m9'', ''m1'']) \<and>
   messages_get env_lost ''m9'' = Inl (ApiError ''not found'') \<and>
   messages_get env_lost ''m1'' = Inr msg_refund \<and>
   eligible Map.empty msg_refund \<and>
   cycle_calls (pollEmails env_lost Map.empty) =
     [(ListCall listRequest, None), (GetCall ''m9'', Some (ApiError ''not found'')),
      (GetCall ''m1'', None)] \<and>
   cycle_emails (pollEmails env_lost Map.empty) = [] \<and>
   actions (cycleEvents (pollEmails env_lost Map.empty)) = [] \<and>
   cycle_caught (pollEmails env_lost Map.empty) = Some (ApiError ''not found'') \<and>
   sendCalls (cycleEvents (pollEmails env_clarify Map.empty)) = [(reply_refund, None)]"
proof -
  have el: "eligible Map.empty msg_refund"
    by (simp add: eligible_def subject_refund)
  have lost: "pollEmails env_lost Map.empty =
     \<lparr>cycle_store = Map.empty,
      cycle_calls = [(ListCall listRequest, None),
        (GetCall ''m9'', Some (ApiError ''not found'')), (GetCall ''m1'', None)],
      cycle_emails = [],
      cycle_caught = Some (ApiError ''not found'')\<rparr>"
    by (simp add: pollEmails_def fetchAll_def failure_def example_envs)
  from el have cb: "callback env_clarify Map.empty msg_refund Map.empty =
      (Some Completed, [''t1'' \<mapsto> \<lparr>lastProcessedEmailId = ''m1''\<rparr>],
       [(invokeCall email_refund, None), (SendCall reply_refund, None),
        (ModifyCall ''m1'', None)])"
    by (simp add: callback_def refund_ok)
  have l: "messages_list env_clarify listRequest = Inr (Some [''m1''])"
    by (simp add: example_envs)
  have g: "messages_get env_clarify ''m1'' = Inr msg_refund"
    by (simp add: example_envs)
  have alone: "sendCalls (cycleEvents (pollEmails env_clarify Map.empty)) =
      [(reply_refund, None)]"
    by (simp add: pollEmails_single [OF l g cb] cycleEvents_def invokeCall_def)
  from el lost alone show ?thesis
    by (simp add: example_envs cycleEvents_def actions_def)
qed

text \<open>
  C1, amended: when the fetch of a listed message fails, the requests for all listed
  messages have been made, and the cycle ends there: the error is caught by \<open>pollEmails\<close>,
  none of the listed messages is processed, and the store is unchanged.
\<close>

theorem fetch_failure_aborts_cycle:
  assumes "messages_list w listRequest = Inr (Some ids)"
    and "i \<in> set ids"
    and "messages_get w i = Inl e"
  shows "cycle_emails (pollEmails w st) = [] \<and>
         cycle_store (pollEmails w st) = st \<and>
         (\<exists>err. cycle_caught (pollEmails w st) = Some err) \<and>
         cycle_calls (pollEmails w st) =
           (ListCall listRequest, None) #
           map (\<lambda>j. (GetCall j, failure (messages_get w j))) ids"
proof -
  from assms(2,3) have "Inl e \<in> set (map (messages_get w) ids)" by force
  from collect_fails [OF this] obtain err
    where "collect (map (messages_get w) ids) = Inl err" ..
  moreover from assms(2) have "ids \<noteq> []" by auto
  ultimately show ?thesis using assms(1)
    by (simp add: pollEmails_def fetchAll_def)
qed

theorem fetch_failure_aborts_cycle_witness:
  "messages_list env_lost listRequest = Inr (Some [''m9'', ''m1'']) \<and>
   ''m9'' \<in> set [''m9'', ''m1''] \<and>
   messages_get env_lost ''m9'' = Inl (ApiError ''not found'') \<and>
   cycle_emails (pollEmails env_lost store_tracked) = [] \<and>
   cycle_store (pollEmails env_lost store_tracked) = store_tracked \<and>
   (\<exists>err. cycle_caught (pollEmails env_lost store_tracked) = Some err) \<and>
   map fst (cycle_calls (pollEmails env_lost store_tracked)) =
     [ListCall listRequest, GetCall ''m9'', GetCall ''m1'']"
proof -
  have h1: "messages_list env_lost listRequest = Inr (Some [''m9'', ''m1''])"
    by (simp add: example_envs)
  have h2: "''m9'' \<in> set [''m9'', ''m1'']" by simp
  have h3: "messages_get env_lost ''m9'' = Inl (ApiError ''not found'')"
    by (simp add: example_envs)
  from fetch_failure_aborts_cycle [OF h1 h2 h3, of store_tracked] h1 h2 h3
  show ?thesis by simp
qed

end
